theory Spec2Isabelle
  imports Main "HOL-Library.Word" "HOL-Library.Sublist"
begin

section \<open>The multipart upload handler of main.go\<close>

text \<open>
  The repository is one Go file. Its handler \<open>FileHandler\<close> validates a request, opens a
  multipart upload on the storage backend, streams the body to it in parts of
  \<open>minUploadPartSize\<close> bytes, completes the upload and answers with the object's key and
  location. The model below follows the handler statement by statement. What the handler
  does to the outside world is made explicit: the response writer is a record that the
  handler returns updated, and every call to the backend is appended, with its answer, to
  a list of events.
\<close>

subsection \<open>Constants\<close>

type_synonym byte = "8 word"
type_synonym int32 = "32 word"

text \<open>
  \<open>maxContentSize\<close> and \<open>minUploadPartSize\<close> are \<open>int64\<close> constants. The first is only
  compared with \<open>r.ContentLength\<close> (an \<open>int64\<close>, negative when the length is unknown),
  the second is only the byte count handed to \<open>io.CopyN\<close>; no arithmetic is done on
  either, so they are an \<open>int\<close> and a \<open>nat\<close> here.
\<close>

definition maxContentSize :: int where
  "maxContentSize = 1024 * 1024 * 2500"

definition minUploadPartSize :: nat where
  "minUploadPartSize = 1024 * 1024 * 5"

abbreviation MethodPost :: string where
  "MethodPost \<equiv> ''POST''"

abbreviation StatusCreated :: nat where
  "StatusCreated \<equiv> 201"

abbreviation StatusMethodNotAllowed :: nat where
  "StatusMethodNotAllowed \<equiv> 405"

abbreviation StatusRequestEntityTooLarge :: nat where
  "StatusRequestEntityTooLarge \<equiv> 413"

abbreviation StatusUnsupportedMediaType :: nat where
  "StatusUnsupportedMediaType \<equiv> 415"

abbreviation StatusInternalServerError :: nat where
  "StatusInternalServerError \<equiv> 500"

subsection \<open>The request and its body\<close>

text \<open>
  \<open>r.Body\<close> is a reader: the bytes still to come, and how the stream ends once they are
  consumed, cleanly (\<open>io.EOF\<close>) or with a read error.
\<close>

record Body =
  remaining :: "byte list"
  failure :: bool

datatype io_error = EOF | ErrRead

text \<open>
  \<open>io.CopyN(dst, src, n)\<close> copies until \<open>n\<close> bytes are written or \<open>src\<close> ends. It returns
  \<open>(n, nil)\<close> when all \<open>n\<close> bytes were copied, \<open>(written, io.EOF)\<close> when the source ended
  early and cleanly, and \<open>(written, err)\<close> when the source failed. The result is the bytes
  added to the (empty) buffer, the error, and the reader after the call.
\<close>

definition CopyN :: "Body \<Rightarrow> nat \<Rightarrow> byte list \<times> io_error option \<times> Body" where
  "CopyN src n =
     (let buffer = take n (remaining src);
          src' = src\<lparr>remaining := drop n (remaining src)\<rparr>
      in if length buffer = n then (buffer, None, src')
         else (buffer, Some (if failure src then ErrRead else EOF), src'))"

text \<open>
  \<open>ContentType\<close> is the value of \<open>r.Header.Get("Content-Type")\<close> (the empty string when
  the header is absent).
\<close>

record Request =
  Method :: string
  ContentType :: string
  ContentLength :: int
  Body :: Body

definition HasPrefix :: "string \<Rightarrow> string \<Rightarrow> bool" where
  "HasPrefix s p = prefix p s"

subsection \<open>The response writer\<close>

record Link =
  URL :: string

record Message =
  Key :: string
  Links :: "Link list"

text \<open>
  The writer keeps the headers set, the status code sent and the payload written. As in
  \<open>net/http\<close>, only the first \<open>WriteHeader\<close> takes effect. The payload is kept as the
  \<open>Message\<close> that \<open>json.Marshal\<close> encodes; marshalling a struct of strings does not fail.
\<close>

record ResponseWriter =
  header :: "string \<rightharpoonup> string"
  status :: "nat option"
  payload :: "Message option"

definition NewResponseWriter :: ResponseWriter where
  "NewResponseWriter = \<lparr>header = Map.empty, status = None, payload = None\<rparr>"

definition Header_Set :: "string \<Rightarrow> string \<Rightarrow> ResponseWriter \<Rightarrow> ResponseWriter" where
  "Header_Set k v w = w\<lparr>header := (header w)(k \<mapsto> v)\<rparr>"

definition WriteHeader :: "nat \<Rightarrow> ResponseWriter \<Rightarrow> ResponseWriter" where
  "WriteHeader code w = (case status w of None \<Rightarrow> w\<lparr>status := Some code\<rparr> | Some _ \<Rightarrow> w)"

definition Write :: "Message \<Rightarrow> ResponseWriter \<Rightarrow> ResponseWriter" where
  "Write b w = w\<lparr>payload := Some b\<rparr>"

subsection \<open>The storage backend\<close>

text \<open>
  The inputs and outputs of the three S3 operations, with the fields the handler sets or
  reads (every other input field is \<open>nil\<close> or empty in the source). A \<open>*string\<close> is a
  \<open>string option\<close>.
\<close>

type_synonym error = string

datatype ObjectCannedACL = ObjectCannedACLPrivate

record CreateMultipartUploadInput =
  cmuBucket :: "string option"
  cmuKey :: "string option"
  cmuACL :: ObjectCannedACL
  cmuContentType :: "string option"

record CreateMultipartUploadOutput =
  mpuBucket :: "string option"
  mpuKey :: "string option"
  mpuUploadId :: "string option"

record UploadPartInput =
  upBucket :: "string option"
  upKey :: "string option"
  upPartNumber :: int32
  upUploadId :: "string option"
  upBody :: "byte list"
  upContentLength :: int

record UploadPartOutput =
  upETag :: "string option"

record CompletedPart =
  ETag :: "string option"
  PartNumber :: int32

record CompleteMultipartUploadInput =
  cmpBucket :: "string option"
  cmpKey :: "string option"
  cmpUploadId :: "string option"
  cmpParts :: "CompletedPart list"

record CompleteMultipartUploadOutput =
  cmpoKey :: "string option"
  cmpoLocation :: "string option"

text \<open>One backend call: its input and what the backend answered.\<close>

datatype event =
    EvCreate CreateMultipartUploadInput "error + CreateMultipartUploadOutput"
  | EvUpload UploadPartInput "error + UploadPartOutput"
  | EvComplete CompleteMultipartUploadInput "error + CompleteMultipartUploadOutput"

text \<open>
  The backend is outside the program. Its answer to a call may depend on the input and on
  everything that happened before, so each operation takes the events so far.
\<close>

record Client =
  CreateMultipartUpload ::
    "event list \<Rightarrow> CreateMultipartUploadInput \<Rightarrow> error + CreateMultipartUploadOutput"
  UploadPart :: "event list \<Rightarrow> UploadPartInput \<Rightarrow> error + UploadPartOutput"
  CompleteMultipartUpload ::
    "event list \<Rightarrow> CompleteMultipartUploadInput \<Rightarrow> error + CompleteMultipartUploadOutput"

text \<open>
  What the handler reads from its surroundings: the global \<open>client\<close> and \<open>bucket\<close>, the
  string \<open>uuid.New().String()\<close> returns, and whether \<open>w.Write\<close> fails.
\<close>

record Env =
  client :: Client
  bucket :: string
  newUUID :: string
  writeFails :: bool

subsection \<open>The handler\<close>

definition filenameExtension :: "string \<Rightarrow> string" where
  "filenameExtension contentType =
     (if contentType = ''image/gif'' then ''.gif''
      else if contentType = ''image/jpeg'' then ''.jpeg''
      else if contentType = ''image/png'' then ''.png''
      else if contentType = ''image/tiff'' then ''.tiff''
      else if contentType = ''video/quicktime'' then ''.mov''
      else if contentType = ''video/mpeg'' then ''.mpeg''
      else if contentType = ''video/mp4 '' then ''.mp4''
      else if contentType = ''video/webm'' then ''.webm''
      else [])"

text \<open>
  One pass through the body of the \<open>for !lastPart\<close> loop. \<open>Continue\<close> carries the loop
  variables into the next pass; \<open>Break\<close> is the pass that set \<open>lastPart\<close>, after which the
  loop condition fails; \<open>Abort\<close> is a \<open>return\<close> after \<open>w.WriteHeader(500)\<close>.
\<close>

datatype pass =
    Continue Body int32 "CompletedPart list" "event list"
  | Break "CompletedPart list" "event list"
  | Abort "event list"

definition loop_pass ::
  "Env \<Rightarrow> CreateMultipartUploadOutput \<Rightarrow> Body \<Rightarrow> int32 \<Rightarrow> CompletedPart list \<Rightarrow> event list \<Rightarrow> pass"
where
  "loop_pass env multipartUploadOutput body partNumber completedParts evs =
     (case CopyN body minUploadPartSize of (buffer, err, body') \<Rightarrow>
        let lastPart = (length buffer = 0 \<or> err = Some EOF) in
        if \<not> lastPart \<and> err \<noteq> None then Abort evs
        else
          let input = \<lparr>upBucket = mpuBucket multipartUploadOutput,
                       upKey = mpuKey multipartUploadOutput,
                       upPartNumber = partNumber,
                       upUploadId = mpuUploadId multipartUploadOutput,
                       upBody = buffer,
                       upContentLength = int (length buffer)\<rparr>;
              result = UploadPart (client env) evs input;
              evs' = evs @ [EvUpload input result]
          in case result of
               Inl e \<Rightarrow> Abort evs'
             | Inr uploadPartOutput \<Rightarrow>
                 let completedParts' =
                       completedParts @ [\<lparr>ETag = upETag uploadPartOutput, PartNumber = partNumber\<rparr>]
                 in if lastPart then Break completedParts' evs'
                    else Continue body' (partNumber + 1) completedParts' evs')"

function upload_loop ::
  "Env \<Rightarrow> CreateMultipartUploadOutput \<Rightarrow> Body \<Rightarrow> int32 \<Rightarrow> CompletedPart list \<Rightarrow> event list
     \<Rightarrow> CompletedPart list option \<times> event list"
where
  "upload_loop env mpu body partNumber completedParts evs =
     (case loop_pass env mpu body partNumber completedParts evs of
        Continue body' partNumber' completedParts' evs' \<Rightarrow>
          upload_loop env mpu body' partNumber' completedParts' evs'
      | Break completedParts' evs' \<Rightarrow> (Some completedParts', evs')
      | Abort evs' \<Rightarrow> (None, evs'))"
  by pat_completeness auto
termination
  by (relation "measure (\<lambda>(env, mpu, body, pn, ps, evs). length (remaining body))")
     (auto simp: loop_pass_def CopyN_def Let_def split: if_splits sum.splits)

text \<open>
  What the handler leaves behind: the response writer, the backend calls in the order
  they were made, and whether it panicked (dereferencing a \<open>nil\<close> \<open>Key\<close> or \<open>Location\<close> of
  the completion output).
\<close>

record Outcome =
  writer :: ResponseWriter
  calls :: "event list"
  panicked :: bool

definition FileHandler :: "Env \<Rightarrow> ResponseWriter \<Rightarrow> Request \<Rightarrow> Outcome" where
  "FileHandler env w r =
     (if Method r = MethodPost then
        (let w = Header_Set ''Accept'' ''application/octet-stream'' w;
            w = Header_Set ''Content-Type'' ''application/json'' w;
            contentType = ContentType r
        in if \<not> HasPrefix contentType ''image/'' \<and> \<not> HasPrefix contentType ''video/'' then
             \<lparr>writer = WriteHeader StatusUnsupportedMediaType w, calls = [], panicked = False\<rparr>
           else if ContentLength r > maxContentSize then
             \<lparr>writer = WriteHeader StatusRequestEntityTooLarge w, calls = [], panicked = False\<rparr>
           else
             let createInput = \<lparr>cmuBucket = Some (bucket env),
                                cmuKey = Some (newUUID env @ filenameExtension contentType),
                                cmuACL = ObjectCannedACLPrivate,
                                cmuContentType = Some contentType\<rparr>;
                 created = CreateMultipartUpload (client env) [] createInput;
                 evs = [EvCreate createInput created]
             in case created of
                  Inl e \<Rightarrow>
                    \<lparr>writer = WriteHeader StatusInternalServerError w, calls = evs, panicked = False\<rparr>
                | Inr multipartUploadOutput \<Rightarrow>
                    (case upload_loop env multipartUploadOutput (Body r) 1 [] evs of
                       (None, evs) \<Rightarrow>
                         \<lparr>writer = WriteHeader StatusInternalServerError w, calls = evs,
                          panicked = False\<rparr>
                     | (Some completedParts, evs) \<Rightarrow>
                         let completeInput = \<lparr>cmpBucket = mpuBucket multipartUploadOutput,
                                              cmpKey = mpuKey multipartUploadOutput,
                                              cmpUploadId = mpuUploadId multipartUploadOutput,
                                              cmpParts = completedParts\<rparr>;
                             completed = CompleteMultipartUpload (client env) evs completeInput;
                             evs = evs @ [EvComplete completeInput completed]
                         in case completed of
                              Inl e \<Rightarrow>
                                \<lparr>writer = WriteHeader StatusInternalServerError w, calls = evs,
                                 panicked = False\<rparr>
                            | Inr completeMultipartUploadOutput \<Rightarrow>
                                (case (cmpoKey completeMultipartUploadOutput,
                                       cmpoLocation completeMultipartUploadOutput) of
                                   (Some key, Some location) \<Rightarrow>
                                     let b = \<lparr>Key = key, Links = [\<lparr>URL = location\<rparr>]\<rparr>;
                                         w = WriteHeader StatusCreated w
                                     in if writeFails env then
                                          \<lparr>writer = WriteHeader StatusInternalServerError w,
                                           calls = evs, panicked = False\<rparr>
                                        else \<lparr>writer = Write b w, calls = evs, panicked = False\<rparr>
                                 | _ \<Rightarrow> \<lparr>writer = w, calls = evs, panicked = True\<rparr>)))
      else \<lparr>writer = WriteHeader StatusMethodNotAllowed w, calls = [], panicked = False\<rparr>)"


subsection \<open>Observing the backend calls\<close>

text \<open>
  Auxiliary definitions for the theorems: the upload-part and the complete-multipart
  calls among a list of events, the input the loop builds for a part, the record it
  keeps of an acknowledged part, and the cut of a body into parts of
  \<open>minUploadPartSize\<close> bytes followed by a last, shorter (possibly empty) part.
\<close>

fun uploads :: "event list \<Rightarrow> (UploadPartInput \<times> (error + UploadPartOutput)) list" where
  "uploads [] = []"
| "uploads (EvUpload i res # es) = (i, res) # uploads es"
| "uploads (e # es) = uploads es"

fun completions ::
  "event list \<Rightarrow> (CompleteMultipartUploadInput \<times> (error + CompleteMultipartUploadOutput)) list" where
  "completions [] = []"
| "completions (EvComplete i res # es) = (i, res) # completions es"
| "completions (e # es) = completions es"

definition upload_events :: "(UploadPartInput \<times> (error + UploadPartOutput)) list \<Rightarrow> event list" where
  "upload_events us = map (\<lambda>(i, res). EvUpload i res) us"

definition part_input :: "CreateMultipartUploadOutput \<Rightarrow> int32 \<Rightarrow> byte list \<Rightarrow> UploadPartInput" where
  "part_input mpu pn buffer =
     \<lparr>upBucket = mpuBucket mpu, upKey = mpuKey mpu, upPartNumber = pn,
      upUploadId = mpuUploadId mpu, upBody = buffer, upContentLength = int (length buffer)\<rparr>"

definition part_record :: "UploadPartInput \<times> (error + UploadPartOutput) \<Rightarrow> CompletedPart" where
  "part_record u =
     \<lparr>ETag = (case snd u of Inl e \<Rightarrow> None | Inr out \<Rightarrow> upETag out),
      PartNumber = upPartNumber (fst u)\<rparr>"

function chunks :: "'a list \<Rightarrow> 'a list list" where
  "chunks xs =
     (if length xs < minUploadPartSize then [xs]
      else take minUploadPartSize xs # chunks (drop minUploadPartSize xs))"
  by pat_completeness auto
termination
  by (relation "measure length") (auto simp: minUploadPartSize_def)

text \<open>
  Names for pieces of the handler: the writer after the two \<open>Header().Set\<close> calls, the
  inputs of the create and complete calls, and the requests that pass the three checks
  (method, content type, declared length).
\<close>

definition prepared :: "ResponseWriter \<Rightarrow> ResponseWriter" where
  "prepared w =
     Header_Set ''Content-Type'' ''application/json''
       (Header_Set ''Accept'' ''application/octet-stream'' w)"

definition create_input :: "Env \<Rightarrow> Request \<Rightarrow> CreateMultipartUploadInput" where
  "create_input env r =
     \<lparr>cmuBucket = Some (bucket env),
      cmuKey = Some (newUUID env @ filenameExtension (ContentType r)),
      cmuACL = ObjectCannedACLPrivate,
      cmuContentType = Some (ContentType r)\<rparr>"

definition complete_input ::
  "CreateMultipartUploadOutput \<Rightarrow> CompletedPart list \<Rightarrow> CompleteMultipartUploadInput" where
  "complete_input mpu ps =
     \<lparr>cmpBucket = mpuBucket mpu, cmpKey = mpuKey mpu, cmpUploadId = mpuUploadId mpu,
      cmpParts = ps\<rparr>"

definition accepted :: "Request \<Rightarrow> bool" where
  "accepted r \<longleftrightarrow>
     Method r = MethodPost \<and>
     (HasPrefix (ContentType r) ''image/'' \<or> HasPrefix (ContentType r) ''video/'') \<and>
     ContentLength r \<le> maxContentSize"

text \<open>
  A backend that accepts every call, answers with the key it is given and names each part's
  ETag after its part number; a backend that refuses every part; and requests whose
  body ends cleanly. The theorems are instantiated with them.
\<close>

definition exampleClient :: Client where
  "exampleClient =
     \<lparr>CreateMultipartUpload =
        (\<lambda>h i. Inr \<lparr>mpuBucket = cmuBucket i, mpuKey = cmuKey i, mpuUploadId = Some ''upload-1''\<rparr>),
      UploadPart =
        (\<lambda>h i. Inr \<lparr>upETag = Some (replicate (unat (upPartNumber i)) CHR ''e'')\<rparr>),
      CompleteMultipartUpload =
        (\<lambda>h i. Inr \<lparr>cmpoKey = Some (case cmpKey i of None \<Rightarrow> [] | Some key \<Rightarrow> key),
                     cmpoLocation = Some ''https://media.example/object''\<rparr>)\<rparr>"

definition exampleEnv :: Env where
  "exampleEnv =
     \<lparr>client = exampleClient, bucket = ''media'', newUUID = ''0f8fad5b'', writeFails = False\<rparr>"

definition refusingClient :: Client where
  "refusingClient =
     exampleClient\<lparr>UploadPart := (\<lambda>h i. Inl ''InternalError'')\<rparr>"

definition refusingEnv :: Env where
  "refusingEnv = exampleEnv\<lparr>client := refusingClient\<rparr>"

definition exampleRequest :: "string \<Rightarrow> string \<Rightarrow> int \<Rightarrow> byte list \<Rightarrow> Request" where
  "exampleRequest m contentType n bs =
     \<lparr>Method = m, ContentType = contentType, ContentLength = n,
      Body = \<lparr>remaining = bs, failure = False\<rparr>\<rparr>"

section \<open>The loop\<close>

text \<open>
  The equations of \<open>upload_loop\<close> and \<open>chunks\<close> rewrite a call into another call of the
  same function, so they are unfolded by hand, one pass at a time.
\<close>

declare upload_loop.simps [simp del]

declare chunks.simps [simp del]

lemma minUploadPartSize_pos: "0 < minUploadPartSize"
  by (simp add: minUploadPartSize_def)

lemma uploads_append: "uploads (xs @ ys) = uploads xs @ uploads ys"
  by (induction xs rule: uploads.induct) simp_all

lemma completions_append: "completions (xs @ ys) = completions xs @ completions ys"
  by (induction xs rule: completions.induct) simp_all

lemma uploads_upload_events: "uploads (upload_events us) = us"
  by (induction us) (auto simp: upload_events_def)

lemma completions_upload_events: "completions (upload_events us) = []"
  by (induction us) (auto simp: upload_events_def)

lemma loop_pass_unfold:
  "loop_pass env mpu body pn ps evs =
     (let buffer = take minUploadPartSize (remaining body);
          full = (minUploadPartSize \<le> length (remaining body));
          input = part_input mpu pn buffer;
          result = UploadPart (client env) evs input
      in if \<not> full \<and> buffer \<noteq> [] \<and> failure body then Abort evs
         else case result of
                Inl e \<Rightarrow> Abort (evs @ [EvUpload input result])
              | Inr out \<Rightarrow>
                  if full
                  then Continue (body\<lparr>remaining := drop minUploadPartSize (remaining body)\<rparr>) (pn + 1)
                         (ps @ [\<lparr>ETag = upETag out, PartNumber = pn\<rparr>]) (evs @ [EvUpload input result])
                  else Break (ps @ [\<lparr>ETag = upETag out, PartNumber = pn\<rparr>])
                         (evs @ [EvUpload input result]))"
  using minUploadPartSize_pos
  by (cases "UploadPart (client env) evs
               (part_input mpu pn (take minUploadPartSize (remaining body)))")
     (auto simp: loop_pass_def CopyN_def Let_def part_input_def min_def)

lemma upload_events_Cons: "upload_events ((i, res) # us) = EvUpload i res # upload_events us"
  by (simp add: upload_events_def)

lemma upload_events_Nil: "upload_events [] = []"
  by (simp add: upload_events_def)

lemma upload_loop_general:
  assumes "upload_loop env mpu body pn ps evs = (res, evs')"
  shows "\<exists>us. evs' = evs @ upload_events us \<and>
              map (\<lambda>u. upPartNumber (fst u)) us = map (\<lambda>j. pn + of_nat j) [0..<length us] \<and>
              (\<forall>u \<in> set (butlast us). \<not> isl (snd u)) \<and>
              (case res of
                 None \<Rightarrow> True
               | Some ps' \<Rightarrow> us \<noteq> [] \<and> \<not> isl (snd (last us)) \<and> ps' = ps @ map part_record us)"
  using assms
proof (induction env mpu body pn ps evs rule: upload_loop.induct)
  case (1 env mpu body pn ps evs)
  let ?buffer = "take minUploadPartSize (remaining body)"
  let ?input = "part_input mpu pn ?buffer"
  let ?result = "UploadPart (client env) evs ?input"
  show ?case
  proof (cases "loop_pass env mpu body pn ps evs")
    case (Continue body' pn' ps' evs1)
    from Continue have shape:
      "pn' = pn + 1" "evs1 = evs @ [EvUpload ?input ?result]" "\<not> isl ?result"
      "ps' = ps @ [part_record (?input, ?result)]"
      by (auto simp: loop_pass_unfold Let_def part_record_def part_input_def
               split: if_splits sum.splits)
    from "1.prems" Continue have "upload_loop env mpu body' pn' ps' evs1 = (res, evs')"
      by (simp add: upload_loop.simps [of env mpu body pn ps evs])
    from "1.IH" [OF Continue this] obtain us where us:
      "evs' = evs1 @ upload_events us"
      "map (\<lambda>u. upPartNumber (fst u)) us = map (\<lambda>j. pn' + of_nat j) [0..<length us]"
      "\<forall>u \<in> set (butlast us). \<not> isl (snd u)"
      "case res of None \<Rightarrow> True
       | Some ps'' \<Rightarrow> us \<noteq> [] \<and> \<not> isl (snd (last us)) \<and> ps'' = ps' @ map part_record us"
      by blast
    let ?us = "(?input, ?result) # us"
    have "evs' = evs @ upload_events ?us"
      using us(1) shape(2) by (simp add: upload_events_Cons)
    moreover have "map (\<lambda>u. upPartNumber (fst u)) ?us = map (\<lambda>j. pn + of_nat j) [0..<length ?us]"
      using us(2) shape(1)
      by (simp add: part_input_def map_upt_Suc add.assoc del: upt_Suc)
    moreover have "\<forall>u \<in> set (butlast ?us). \<not> isl (snd u)"
      using us(3) shape(3) by auto
    moreover have "case res of None \<Rightarrow> True
       | Some ps'' \<Rightarrow> ?us \<noteq> [] \<and> \<not> isl (snd (last ?us)) \<and> ps'' = ps @ map part_record ?us"
      using us(4) shape(4) by (auto split: option.splits)
    ultimately show ?thesis by blast
  next
    case (Break ps' evs1)
    from Break have shape:
      "evs1 = evs @ [EvUpload ?input ?result]" "\<not> isl ?result"
      "ps' = ps @ [part_record (?input, ?result)]"
      by (auto simp: loop_pass_unfold Let_def part_record_def part_input_def
               split: if_splits sum.splits)
    from "1.prems" Break have "res = Some ps'" "evs' = evs1"
      by (simp_all add: upload_loop.simps [of env mpu body pn ps evs])
    with shape show ?thesis
      by (intro exI [of _ "[(?input, ?result)]"])
         (simp add: upload_events_def part_input_def)
  next
    case (Abort evs1)
    from Abort have shape: "evs1 = evs \<or> evs1 = evs @ [EvUpload ?input ?result]"
      by (auto simp: loop_pass_unfold Let_def split: if_splits sum.splits)
    from "1.prems" Abort have r: "res = None" "evs' = evs1"
      by (simp_all add: upload_loop.simps [of env mpu body pn ps evs])
    from shape show ?thesis
    proof
      assume "evs1 = evs"
      with r show ?thesis by (intro exI [of _ "[]"]) (simp add: upload_events_def)
    next
      assume "evs1 = evs @ [EvUpload ?input ?result]"
      with r show ?thesis
        by (intro exI [of _ "[(?input, ?result)]"])
           (simp add: upload_events_def part_input_def)
    qed
  qed
qed

lemma upload_loop_inputs:
  assumes "upload_loop env mpu body pn ps evs = (res, evs')"
    and "u \<in> set (uploads evs')"
  shows "u \<in> set (uploads evs) \<or> fst u = part_input mpu (upPartNumber (fst u)) (upBody (fst u))"
  using assms
proof (induction env mpu body pn ps evs rule: upload_loop.induct)
  case (1 env mpu body pn ps evs)
  let ?input = "part_input mpu pn (take minUploadPartSize (remaining body))"
  let ?result = "UploadPart (client env) evs ?input"
  have input: "?input = part_input mpu (upPartNumber ?input) (upBody ?input)"
    by (simp add: part_input_def)
  show ?case
  proof (cases "loop_pass env mpu body pn ps evs")
    case (Continue body' pn' ps' evs1)
    then have evs1: "evs1 = evs @ [EvUpload ?input ?result]"
      by (auto simp: loop_pass_unfold Let_def split: if_splits sum.splits)
    from "1.prems"(1) Continue have "upload_loop env mpu body' pn' ps' evs1 = (res, evs')"
      by (simp add: upload_loop.simps [of env mpu body pn ps evs])
    from "1.IH" [OF Continue this "1.prems"(2)] evs1 input show ?thesis
      by (auto simp: uploads_append)
  next
    case (Break ps' evs1)
    then have "evs1 = evs @ [EvUpload ?input ?result]"
      by (auto simp: loop_pass_unfold Let_def split: if_splits sum.splits)
    moreover from "1.prems"(1) Break have "evs' = evs1"
      by (simp add: upload_loop.simps [of env mpu body pn ps evs])
    ultimately show ?thesis
      using "1.prems"(2) input by (auto simp: uploads_append)
  next
    case (Abort evs1)
    then have "evs1 = evs \<or> evs1 = evs @ [EvUpload ?input ?result]"
      by (auto simp: loop_pass_unfold Let_def split: if_splits sum.splits)
    moreover from "1.prems"(1) Abort have "evs' = evs1"
      by (simp add: upload_loop.simps [of env mpu body pn ps evs])
    ultimately show ?thesis
      using "1.prems"(2) input by (auto simp: uploads_append)
  qed
qed

lemma length_chunks: "length (chunks xs) = length xs div minUploadPartSize + 1"
proof (induction xs rule: chunks.induct)
  case (1 xs)
  show ?case
  proof (cases "length xs < minUploadPartSize")
    case True
    then show ?thesis by (simp add: chunks.simps [of xs])
  next
    case False
    with 1 have "length (chunks xs) = Suc ((length xs - minUploadPartSize) div minUploadPartSize + 1)"
      by (simp add: chunks.simps [of xs])
    also have "\<dots> = length xs div minUploadPartSize + 1"
      using False minUploadPartSize_pos by (simp add: le_div_geq)
    finally show ?thesis .
  qed
qed

lemma concat_chunks: "concat (chunks xs) = xs"
proof (induction xs rule: chunks.induct)
  case (1 xs)
  then show ?case
    by (cases "length xs < minUploadPartSize") (simp_all add: chunks.simps [of xs])
qed

lemma upload_loop_succeeds:
  assumes "\<And>h i. \<not> isl (UploadPart (client env) h i)"
    and "failure body \<Longrightarrow> minUploadPartSize dvd length (remaining body)"
  shows "\<exists>ps' us. upload_loop env mpu body pn ps evs = (Some ps', evs @ upload_events us) \<and>
                  map (\<lambda>u. upBody (fst u)) us = chunks (remaining body)"
  using assms
proof (induction env mpu body pn ps evs rule: upload_loop.induct)
  case (1 env mpu body pn ps evs)
  let ?buffer = "take minUploadPartSize (remaining body)"
  let ?input = "part_input mpu pn ?buffer"
  let ?result = "UploadPart (client env) evs ?input"
  let ?evs = "evs @ [EvUpload ?input ?result]"
  obtain out where res: "?result = Inr out"
    by (cases ?result) (use "1.prems"(1) [of evs ?input] in simp_all)
  let ?ps = "ps @ [\<lparr>ETag = upETag out, PartNumber = pn\<rparr>]"
  show ?case
  proof (cases "minUploadPartSize \<le> length (remaining body)")
    case True
    let ?body = "body\<lparr>remaining := drop minUploadPartSize (remaining body)\<rparr>"
    have pass: "loop_pass env mpu body pn ps evs = Continue ?body (pn + 1) ?ps ?evs"
      using True res by (simp add: loop_pass_unfold Let_def)
    have "failure ?body \<Longrightarrow> minUploadPartSize dvd length (remaining ?body)"
      using "1.prems"(2) True by (simp add: dvd_diff_nat)
    from "1.IH" [OF pass "1.prems"(1) this] obtain ps' us where
      "upload_loop env mpu ?body (pn + 1) ?ps ?evs = (Some ps', ?evs @ upload_events us)"
      "map (\<lambda>u. upBody (fst u)) us = chunks (remaining ?body)"
      by blast
    with pass True show ?thesis
      by (intro exI [of _ ps'] exI [of _ "(?input, ?result) # us"])
         (simp add: upload_loop.simps [of env mpu body pn ps evs] upload_events_Cons
            chunks.simps [of "remaining body"] part_input_def)
  next
    case False
    have "\<not> (?buffer \<noteq> [] \<and> failure body)"
    proof
      assume a: "?buffer \<noteq> [] \<and> failure body"
      with "1.prems"(2) have "minUploadPartSize dvd length (remaining body)" by simp
      with False have "length (remaining body) = 0"
        by (meson dvd_imp_le not_le_imp_less not_less_iff_gr_or_eq neq0_conv not_le)
      with a show False by simp
    qed
    with False res have pass: "loop_pass env mpu body pn ps evs = Break ?ps ?evs"
      by (simp add: loop_pass_unfold Let_def)
    with False show ?thesis
      by (intro exI [of _ ?ps] exI [of _ "[(?input, ?result)]"])
         (simp add: upload_loop.simps [of env mpu body pn ps evs] upload_events_def
            chunks.simps [of "remaining body"] part_input_def)
  qed
qed

section \<open>The paths through the handler\<close>

lemma status_prepared: "status (prepared w) = status w"
  by (simp add: prepared_def Header_Set_def)

lemma status_WriteHeader: "status w = None \<Longrightarrow> status (WriteHeader code w) = Some code"
  by (simp add: WriteHeader_def)

lemma FileHandler_not_accepted:
  assumes "\<not> accepted r"
  shows "calls (FileHandler env w r) = []"
  using assms by (auto simp: FileHandler_def accepted_def Let_def)

lemma FileHandler_create_failed:
  assumes "accepted r"
    and "CreateMultipartUpload (client env) [] (create_input env r) = Inl e"
  shows "FileHandler env w r =
           \<lparr>writer = WriteHeader StatusInternalServerError (prepared w),
            calls = [EvCreate (create_input env r) (Inl e)], panicked = False\<rparr>"
  using assms by (auto simp: FileHandler_def accepted_def Let_def create_input_def prepared_def)

lemma FileHandler_loop_failed:
  assumes "accepted r"
    and "CreateMultipartUpload (client env) [] (create_input env r) = Inr mpu"
    and "upload_loop env mpu (Body r) 1 [] [EvCreate (create_input env r) (Inr mpu)] = (None, evs)"
  shows "FileHandler env w r =
           \<lparr>writer = WriteHeader StatusInternalServerError (prepared w),
            calls = evs, panicked = False\<rparr>"
  using assms by (auto simp: FileHandler_def accepted_def Let_def create_input_def prepared_def)

lemma FileHandler_loop_done:
  assumes "accepted r"
    and "CreateMultipartUpload (client env) [] (create_input env r) = Inr mpu"
    and "upload_loop env mpu (Body r) 1 [] [EvCreate (create_input env r) (Inr mpu)] = (Some ps, evs)"
  shows "FileHandler env w r =
           (case CompleteMultipartUpload (client env) evs (complete_input mpu ps) of
              Inl e \<Rightarrow>
                \<lparr>writer = WriteHeader StatusInternalServerError (prepared w),
                 calls = evs @ [EvComplete (complete_input mpu ps) (Inl e)], panicked = False\<rparr>
            | Inr out \<Rightarrow>
                (case (cmpoKey out, cmpoLocation out) of
                   (Some key, Some location) \<Rightarrow>
                     \<lparr>writer =
                        (if writeFails env
                         then WriteHeader StatusInternalServerError
                                (WriteHeader StatusCreated (prepared w))
                         else Write \<lparr>Key = key, Links = [\<lparr>URL = location\<rparr>]\<rparr>
                                (WriteHeader StatusCreated (prepared w))),
                      calls = evs @ [EvComplete (complete_input mpu ps) (Inr out)],
                      panicked = False\<rparr>
                 | _ \<Rightarrow>
                     \<lparr>writer = prepared w,
                      calls = evs @ [EvComplete (complete_input mpu ps) (Inr out)],
                      panicked = True\<rparr>))"
  using assms
  by (auto simp: FileHandler_def accepted_def Let_def create_input_def prepared_def
        complete_input_def split: sum.splits option.splits)

lemma all_butlast_last:
  assumes "us \<noteq> []" and "\<forall>u \<in> set (butlast us). P u" and "P (last us)"
  shows "\<forall>u \<in> set us. P u"
proof -
  have "set us = set (butlast us @ [last us])"
    using assms(1) by simp
  with assms(2,3) show ?thesis by auto
qed

lemma FileHandler_accepted_cases:
  assumes "accepted r"
  obtains
    (create_failed) e where
      "CreateMultipartUpload (client env) [] (create_input env r) = Inl e"
      "FileHandler env w r =
         \<lparr>writer = WriteHeader StatusInternalServerError (prepared w),
          calls = [EvCreate (create_input env r) (Inl e)], panicked = False\<rparr>"
  | (loop_failed) mpu us where
      "CreateMultipartUpload (client env) [] (create_input env r) = Inr mpu"
      "upload_loop env mpu (Body r) 1 [] [EvCreate (create_input env r) (Inr mpu)] =
         (None, EvCreate (create_input env r) (Inr mpu) # upload_events us)"
      "FileHandler env w r =
         \<lparr>writer = WriteHeader StatusInternalServerError (prepared w),
          calls = EvCreate (create_input env r) (Inr mpu) # upload_events us, panicked = False\<rparr>"
      "\<forall>u \<in> set (butlast us). \<not> isl (snd u)"
  | (completed) mpu us res where
      "CreateMultipartUpload (client env) [] (create_input env r) = Inr mpu"
      "upload_loop env mpu (Body r) 1 [] [EvCreate (create_input env r) (Inr mpu)] =
         (Some (map part_record us), EvCreate (create_input env r) (Inr mpu) # upload_events us)"
      "res = CompleteMultipartUpload (client env)
               (EvCreate (create_input env r) (Inr mpu) # upload_events us)
               (complete_input mpu (map part_record us))"
      "calls (FileHandler env w r) =
         EvCreate (create_input env r) (Inr mpu) # upload_events us @
         [EvComplete (complete_input mpu (map part_record us)) res]"
      "us \<noteq> []"
      "\<forall>u \<in> set us. \<not> isl (snd u)"
      "map (\<lambda>u. upPartNumber (fst u)) us = map (\<lambda>j. 1 + of_nat j) [0..<length us]"
      "writer (FileHandler env w r) =
         (case res of
            Inl e \<Rightarrow> WriteHeader StatusInternalServerError (prepared w)
          | Inr out \<Rightarrow>
              (case (cmpoKey out, cmpoLocation out) of
                 (Some key, Some location) \<Rightarrow>
                   if writeFails env
                   then WriteHeader StatusInternalServerError (WriteHeader StatusCreated (prepared w))
                   else Write \<lparr>Key = key, Links = [\<lparr>URL = location\<rparr>]\<rparr>
                          (WriteHeader StatusCreated (prepared w))
               | _ \<Rightarrow> prepared w))"
      "panicked (FileHandler env w r) \<longleftrightarrow>
         (case res of Inl e \<Rightarrow> False
          | Inr out \<Rightarrow> cmpoKey out = None \<or> cmpoLocation out = None)"
proof (cases "CreateMultipartUpload (client env) [] (create_input env r)")
  case (Inl e)
  with assms create_failed show ?thesis
    by (simp add: FileHandler_create_failed)
next
  case (Inr mpu)
  let ?evs = "[EvCreate (create_input env r) (Inr mpu)]"
  obtain ps evs where loop: "upload_loop env mpu (Body r) 1 [] ?evs = (ps, evs)"
    by (cases "upload_loop env mpu (Body r) 1 [] ?evs") blast
  from upload_loop_general [OF loop] obtain us where us:
    "evs = ?evs @ upload_events us"
    "map (\<lambda>u. upPartNumber (fst u)) us = map (\<lambda>j. 1 + of_nat j) [0..<length us]"
    "\<forall>u \<in> set (butlast us). \<not> isl (snd u)"
    "case ps of None \<Rightarrow> True
     | Some ps' \<Rightarrow> us \<noteq> [] \<and> \<not> isl (snd (last us)) \<and> ps' = [] @ map part_record us"
    by blast
  show ?thesis
  proof (cases ps)
    case None
    with loop have "upload_loop env mpu (Body r) 1 [] ?evs = (None, evs)" by simp
    from FileHandler_loop_failed [OF assms Inr this] this us(1,3) Inr loop_failed show ?thesis
      by simp
  next
    case (Some ps')
    with us(4) have ps': "us \<noteq> []" "\<not> isl (snd (last us))" "ps' = map part_record us"
      by simp_all
    from Some loop have loop': "upload_loop env mpu (Body r) 1 [] ?evs = (Some ps', evs)" by simp
    note run = FileHandler_loop_done [OF assms Inr this, of w]
    let ?res = "CompleteMultipartUpload (client env) evs (complete_input mpu ps')"
    have "calls (FileHandler env w r) =
            EvCreate (create_input env r) (Inr mpu) # upload_events us @
            [EvComplete (complete_input mpu (map part_record us)) ?res]"
      using us(1) ps'(3) by (simp add: run split: sum.splits option.splits)
    moreover have "\<forall>u \<in> set us. \<not> isl (snd u)"
      using ps'(1) us(3) ps'(2) by (rule all_butlast_last)
    moreover have "writer (FileHandler env w r) =
         (case ?res of
            Inl e \<Rightarrow> WriteHeader StatusInternalServerError (prepared w)
          | Inr out \<Rightarrow>
              (case (cmpoKey out, cmpoLocation out) of
                 (Some key, Some location) \<Rightarrow>
                   if writeFails env
                   then WriteHeader StatusInternalServerError (WriteHeader StatusCreated (prepared w))
                   else Write \<lparr>Key = key, Links = [\<lparr>URL = location\<rparr>]\<rparr>
                          (WriteHeader StatusCreated (prepared w))
               | _ \<Rightarrow> prepared w))"
      by (simp add: run split: sum.splits option.splits)
    moreover have "panicked (FileHandler env w r) \<longleftrightarrow>
         (case ?res of Inl e \<Rightarrow> False
          | Inr out \<Rightarrow> cmpoKey out = None \<or> cmpoLocation out = None)"
      by (simp add: run split: sum.splits option.splits)
    moreover have "upload_loop env mpu (Body r) 1 [] ?evs =
         (Some (map part_record us), EvCreate (create_input env r) (Inr mpu) # upload_events us)"
      using loop' ps'(3) us(1) by simp
    moreover have "?res = CompleteMultipartUpload (client env)
               (EvCreate (create_input env r) (Inr mpu) # upload_events us)
               (complete_input mpu (map part_record us))"
      using ps'(3) us(1) by simp
    ultimately show ?thesis
      using completed [OF Inr] ps'(1) us(2) by blast
  qed
qed


lemma upload_events_inject: "upload_events us = upload_events vs \<Longrightarrow> us = vs"
  by (metis uploads_upload_events)

lemma FileHandler_streams:
  assumes "accepted r"
    and "failure (Body r) \<Longrightarrow> minUploadPartSize dvd length (remaining (Body r))"
    and "\<And>h i. \<not> isl (CreateMultipartUpload (client env) h i)"
    and "\<And>h i. \<not> isl (UploadPart (client env) h i)"
  obtains mpu us res where
      "calls (FileHandler env w r) =
         EvCreate (create_input env r) (Inr mpu) # upload_events us @
         [EvComplete (complete_input mpu (map part_record us)) res]"
      "res = CompleteMultipartUpload (client env)
               (EvCreate (create_input env r) (Inr mpu) # upload_events us)
               (complete_input mpu (map part_record us))"
      "map (\<lambda>u. upBody (fst u)) us = chunks (remaining (Body r))"
      "\<forall>u \<in> set us. \<not> isl (snd u)"
      "map (\<lambda>u. upPartNumber (fst u)) us = map (\<lambda>j. 1 + of_nat j) [0..<length us]"
      "writer (FileHandler env w r) =
         (case res of
            Inl e \<Rightarrow> WriteHeader StatusInternalServerError (prepared w)
          | Inr out \<Rightarrow>
              (case (cmpoKey out, cmpoLocation out) of
                 (Some key, Some location) \<Rightarrow>
                   if writeFails env
                   then WriteHeader StatusInternalServerError (WriteHeader StatusCreated (prepared w))
                   else Write \<lparr>Key = key, Links = [\<lparr>URL = location\<rparr>]\<rparr>
                          (WriteHeader StatusCreated (prepared w))
               | _ \<Rightarrow> prepared w))"
      "CreateMultipartUpload (client env) [] (create_input env r) = Inr mpu"
      "\<forall>u \<in> set us. fst u = part_input mpu (upPartNumber (fst u)) (upBody (fst u))"
      "panicked (FileHandler env w r) \<longleftrightarrow>
         (case res of Inl e \<Rightarrow> False
          | Inr out \<Rightarrow> cmpoKey out = None \<or> cmpoLocation out = None)"
  using assms(1)
proof (cases rule: FileHandler_accepted_cases [where env = env and w = w])
  case (create_failed e)
  with assms(3) [of "[]" "create_input env r"] show ?thesis by simp
next
  case (loop_failed mpu us)
  from upload_loop_succeeds [OF assms(4) assms(2), where mpu = mpu and pn = 1 and ps = "[]"
      and evs = "[EvCreate (create_input env r) (Inr mpu)]"] loop_failed(2)
  show ?thesis by auto
next
  case (completed mpu us res)
  from upload_loop_succeeds [OF assms(4) assms(2), where mpu = mpu and pn = 1 and ps = "[]"
      and evs = "[EvCreate (create_input env r) (Inr mpu)]"] completed(2)
  obtain vs where "upload_events us = upload_events vs"
    "map (\<lambda>u. upBody (fst u)) vs = chunks (remaining (Body r))"
    by auto
  then have "map (\<lambda>u. upBody (fst u)) us = chunks (remaining (Body r))"
    by (auto dest: upload_events_inject)
  moreover have "\<forall>u \<in> set us. fst u = part_input mpu (upPartNumber (fst u)) (upBody (fst u))"
  proof
    fix u assume "u \<in> set us"
    then have "u \<in> set (uploads (EvCreate (create_input env r) (Inr mpu) # upload_events us))"
      by (simp add: uploads_upload_events)
    from upload_loop_inputs [OF completed(2) this]
    show "fst u = part_input mpu (upPartNumber (fst u)) (upBody (fst u))"
      by simp
  qed
  ultimately show ?thesis
    using completed that by blast
qed

section \<open>Concrete runs and further lemmas\<close>

lemma example_accepts:
  "\<not> isl (CreateMultipartUpload (client exampleEnv) h i)"
  "\<not> isl (UploadPart (client exampleEnv) h j)"
  "\<not> isl (CompleteMultipartUpload (client exampleEnv) h k)"
  by (simp_all add: exampleEnv_def exampleClient_def)

lemma status_accepted:
  assumes "accepted r" and "status w = None"
  shows "status (writer (FileHandler env w r)) \<in>
           {None, Some StatusCreated, Some StatusInternalServerError}"
  using assms(1)
proof (cases rule: FileHandler_accepted_cases [where env = env and w = w])
  case (create_failed e)
  with assms(2) show ?thesis by (simp add: status_WriteHeader status_prepared)
next
  case (loop_failed mpu us)
  with assms(2) show ?thesis by (simp add: status_WriteHeader status_prepared)
next
  case (completed mpu us res)
  with assms(2) show ?thesis
    by (simp add: status_WriteHeader status_prepared Write_def WriteHeader_def
          split: sum.splits option.splits)
qed

lemma first_call_accepted:
  assumes "accepted r"
  shows "\<exists>res rest. calls (FileHandler env w r) = EvCreate (create_input env r) res # rest"
  using assms
  by (cases rule: FileHandler_accepted_cases [where env = env and w = w]) simp_all

lemma sint_of_nat32:
  assumes "n < 2 ^ 31"
  shows "sint (of_nat n :: int32) = int n"
proof -
  have "sint (of_nat n :: int32) = sint (word_of_int (int n) :: int32)"
    by simp
  also have "\<dots> = signed_take_bit 31 (int n)"
    by (simp add: signed_of_nat)
  also have "\<dots> = int n"
  proof (rule signed_take_bit_int_eq_self)
    show "- (2 ^ 31) \<le> int n" by (rule order_trans [of _ 0]) simp_all
    from assms have "int n < int (2 ^ 31)" by (simp only: of_nat_less_iff)
    then show "int n < 2 ^ 31" by simp
  qed
  finally show ?thesis .
qed

lemma EvUpload_in_upload_events:
  "EvUpload i res \<in> set (upload_events us) \<longleftrightarrow> (i, res) \<in> set us"
  by (induction us) (auto simp: upload_events_def)

lemma upload_events_append: "upload_events (us @ vs) = upload_events us @ upload_events vs"
  by (simp add: upload_events_def)

lemma status_NewResponseWriter: "status NewResponseWriter = None"
  by (simp add: NewResponseWriter_def)

lemma refused_run:
  "FileHandler refusingEnv NewResponseWriter (exampleRequest ''POST'' ''image/png'' 3 [1, 2, 3]) =
     \<lparr>writer = \<lparr>header = [''Accept'' \<mapsto> ''application/octet-stream'',
                          ''Content-Type'' \<mapsto> ''application/json''],
                status = Some StatusInternalServerError, payload = None\<rparr>,
      calls =
        [EvCreate \<lparr>cmuBucket = Some ''media'', cmuKey = Some ''0f8fad5b.png'',
                   cmuACL = ObjectCannedACLPrivate, cmuContentType = Some ''image/png''\<rparr>
           (Inr \<lparr>mpuBucket = Some ''media'', mpuKey = Some ''0f8fad5b.png'',
                 mpuUploadId = Some ''upload-1''\<rparr>),
         EvUpload \<lparr>upBucket = Some ''media'', upKey = Some ''0f8fad5b.png'', upPartNumber = 1,
                   upUploadId = Some ''upload-1'', upBody = [1, 2, 3], upContentLength = 3\<rparr>
           (Inl ''InternalError'')],
      panicked = False\<rparr>"
  by (simp add: FileHandler_def upload_loop.simps loop_pass_def CopyN_def Let_def
        refusingEnv_def refusingClient_def exampleEnv_def exampleClient_def exampleRequest_def
        NewResponseWriter_def Header_Set_def WriteHeader_def HasPrefix_def maxContentSize_def
        minUploadPartSize_def filenameExtension_def)

lemma example_run:
  "FileHandler exampleEnv NewResponseWriter (exampleRequest ''POST'' ''image/png'' 3 [1, 2, 3]) =
     \<lparr>writer = \<lparr>header = [''Accept'' \<mapsto> ''application/octet-stream'',
                          ''Content-Type'' \<mapsto> ''application/json''],
                status = Some StatusCreated,
                payload = Some \<lparr>Key = ''0f8fad5b.png'',
                                Links = [\<lparr>URL = ''https://media.example/object''\<rparr>]\<rparr>\<rparr>,
      calls =
        [EvCreate \<lparr>cmuBucket = Some ''media'', cmuKey = Some ''0f8fad5b.png'',
                   cmuACL = ObjectCannedACLPrivate, cmuContentType = Some ''image/png''\<rparr>
           (Inr \<lparr>mpuBucket = Some ''media'', mpuKey = Some ''0f8fad5b.png'',
                 mpuUploadId = Some ''upload-1''\<rparr>),
         EvUpload \<lparr>upBucket = Some ''media'', upKey = Some ''0f8fad5b.png'', upPartNumber = 1,
                   upUploadId = Some ''upload-1'', upBody = [1, 2, 3], upContentLength = 3\<rparr>
           (Inr \<lparr>upETag = Some ''e''\<rparr>),
         EvComplete \<lparr>cmpBucket = Some ''media'', cmpKey = Some ''0f8fad5b.png'',
                     cmpUploadId = Some ''upload-1'',
                     cmpParts = [\<lparr>ETag = Some ''e'', PartNumber = 1\<rparr>]\<rparr>
           (Inr \<lparr>cmpoKey = Some ''0f8fad5b.png'',
                 cmpoLocation = Some ''https://media.example/object''\<rparr>)],
      panicked = False\<rparr>"
  by (simp add: FileHandler_def upload_loop.simps loop_pass_def CopyN_def Let_def
        exampleEnv_def exampleClient_def exampleRequest_def
        NewResponseWriter_def Header_Set_def WriteHeader_def Write_def HasPrefix_def
        maxContentSize_def minUploadPartSize_def filenameExtension_def)

lemma EvComplete_notin_upload_events: "EvComplete i res \<notin> set (upload_events us)"
  by (induction us) (auto simp: upload_events_def)

lemma part_numbers_signed:
  assumes "map (\<lambda>u. upPartNumber (fst u)) us = map (\<lambda>j. 1 + of_nat j) [0..<length us]"
    and "length us < 2 ^ 31"
  shows "map (\<lambda>p. sint (PartNumber p)) (map part_record us) = map int [1..<Suc (length us)]"
proof -
  have "map (\<lambda>p. sint (PartNumber p)) (map part_record us) =
          map sint (map (\<lambda>u. upPartNumber (fst u)) us)"
    by (simp add: part_record_def)
  also have "\<dots> = map (\<lambda>j. sint (of_nat (Suc j) :: int32)) [0..<length us]"
    by (simp add: assms(1))
  also have "\<dots> = map (\<lambda>j. int (Suc j)) [0..<length us]"
  proof (rule map_cong [OF refl])
    fix j assume "j \<in> set [0..<length us]"
    with assms(2) have "Suc j < 2 ^ 31" by simp
    then show "sint (of_nat (Suc j) :: int32) = int (Suc j)"
      by (rule sint_of_nat32)
  qed
  also have "\<dots> = map int (map Suc [0..<length us])"
    by simp
  also have "\<dots> = map int [1..<Suc (length us)]"
    by (simp only: map_Suc_upt One_nat_def)
  finally show ?thesis .
qed

lemma chunks_not_Nil: "chunks xs \<noteq> []"
  by (simp add: chunks.simps [of xs])

lemma length_last_chunks: "length (last (chunks xs)) = length xs mod minUploadPartSize"
proof (induction xs rule: chunks.induct)
  case (1 xs)
  show ?case
  proof (cases "length xs < minUploadPartSize")
    case True
    then show ?thesis by (simp add: chunks.simps [of xs])
  next
    case False
    with 1 have "length (last (chunks xs)) = (length xs - minUploadPartSize) mod minUploadPartSize"
      by (simp add: chunks.simps [of xs] chunks_not_Nil)
    also have "\<dots> = length xs mod minUploadPartSize"
      using False by (simp add: le_mod_geq)
    finally show ?thesis .
  qed
qed

lemma ceiling_div:
  fixes n c :: nat
  assumes "\<not> c dvd n" and "0 < c"
  shows "(n + c - 1) div c = n div c + 1"
proof -
  let ?m = "n mod c"
  have m: "0 < ?m" "?m < c"
    using assms by (simp_all add: dvd_eq_mod_eq_0)
  have "n + c - 1 = (?m + c - 1) + (n div c) * c"
    using m by simp
  then have "(n + c - 1) div c = (?m + c - 1) div c + n div c"
    using assms(2) by (metis div_mult_self1 less_numeral_extra(3) mult.commute add.commute)
  moreover have "(?m + c - 1) div c = 1"
  proof -
    have "(?m + c - 1) div c = Suc ((?m - 1) div c)"
      using m by (simp add: le_div_geq)
    with m show ?thesis by simp
  qed
  ultimately show ?thesis by simp
qed

lemma part_numbers_from_one:
  "map (\<lambda>j. 1 + of_nat j) [0..<k] = map (of_nat :: nat \<Rightarrow> int32) [1..<Suc k]"
proof -
  have "map (of_nat :: nat \<Rightarrow> int32) [1..<Suc k] = map of_nat (map Suc [0..<k])"
    by (simp only: map_Suc_upt One_nat_def)
  then show ?thesis by (simp add: comp_def)
qed

lemma accepted_calls:
  assumes "calls (FileHandler env w r) =
             EvCreate ci cr # upload_events us @ [EvComplete fi fr]"
  shows "uploads (calls (FileHandler env w r)) = us"
    and "completions (calls (FileHandler env w r)) = [(fi, fr)]"
  by (simp_all add: assms uploads_append uploads_upload_events completions_append
        completions_upload_events)

lemma chunks_one_full:
  "chunks (replicate minUploadPartSize x) = [replicate minUploadPartSize x, []]"
  using minUploadPartSize_pos
  by (simp add: chunks.simps [of "replicate minUploadPartSize x"] chunks.simps [of "[]"])

lemma length_three: "length xs = 3 \<Longrightarrow> \<exists>a b c. xs = [a, b, c]"
  by (auto simp: length_Suc_conv numeral_3_eq_3)

lemma length_one: "length xs = 1 \<Longrightarrow> \<exists>a. xs = [a]"
  by (auto simp: length_Suc_conv)

lemma chunks_empty: "chunks [] = [[]]"
  using minUploadPartSize_pos by (simp add: chunks.simps [of "[]"])

lemma chunks_twelve:
  assumes "length xs = 12 * 1024 * 1024"
  shows "chunks xs =
           [take (5 * 1024 * 1024) xs,
            take (5 * 1024 * 1024) (drop (5 * 1024 * 1024) xs),
            drop (10 * 1024 * 1024) xs]"
proof -
  let ?c = minUploadPartSize
  have c: "?c = 5 * 1024 * 1024" by (simp add: minUploadPartSize_def)
  have l1: "\<not> length xs < ?c"
    using assms by (simp add: c)
  have l2: "\<not> length (drop ?c xs) < ?c"
    using assms by (simp add: c)
  have l3: "length (drop ?c (drop ?c xs)) < ?c"
    using assms by (simp add: c)
  have "chunks xs = take ?c xs # chunks (drop ?c xs)"
    using l1 by (subst chunks.simps) simp
  also have "chunks (drop ?c xs) = take ?c (drop ?c xs) # chunks (drop ?c (drop ?c xs))"
    using l2 by (subst chunks.simps) simp
  also have "chunks (drop ?c (drop ?c xs)) = [drop ?c (drop ?c xs)]"
    using l3 by (subst chunks.simps) simp
  finally show ?thesis by (simp add: c)
qed

lemma status_Write: "status (Write b w) = status w"
  by (simp add: Write_def)

lemma payload_Write: "payload (Write b w) = Some b"
  by (simp add: Write_def)

lemma status_created:
  assumes "status w = None"
  shows "status (WriteHeader StatusInternalServerError (WriteHeader StatusCreated (prepared w))) =
           Some StatusCreated"
    and "status (Write b (WriteHeader StatusCreated (prepared w))) = Some StatusCreated"
  using assms by (simp_all add: WriteHeader_def Write_def status_prepared)

lemma example_completes:
  "\<exists>out key location.
     CompleteMultipartUpload (client exampleEnv) h i = Inr out \<and>
     cmpoKey out = Some key \<and> cmpoLocation out = Some location"
  by (simp add: exampleEnv_def exampleClient_def)

lemma empty_run:
  "FileHandler exampleEnv NewResponseWriter (exampleRequest ''POST'' ''video/mp4'' 0 []) =
     \<lparr>writer = \<lparr>header = [''Accept'' \<mapsto> ''application/octet-stream'',
                          ''Content-Type'' \<mapsto> ''application/json''],
                status = Some StatusCreated,
                payload = Some \<lparr>Key = ''0f8fad5b'',
                                Links = [\<lparr>URL = ''https://media.example/object''\<rparr>]\<rparr>\<rparr>,
      calls =
        [EvCreate \<lparr>cmuBucket = Some ''media'', cmuKey = Some ''0f8fad5b'',
                   cmuACL = ObjectCannedACLPrivate, cmuContentType = Some ''video/mp4''\<rparr>
           (Inr \<lparr>mpuBucket = Some ''media'', mpuKey = Some ''0f8fad5b'',
                 mpuUploadId = Some ''upload-1''\<rparr>),
         EvUpload \<lparr>upBucket = Some ''media'', upKey = Some ''0f8fad5b'', upPartNumber = 1,
                   upUploadId = Some ''upload-1'', upBody = [], upContentLength = 0\<rparr>
           (Inr \<lparr>upETag = Some ''e''\<rparr>),
         EvComplete \<lparr>cmpBucket = Some ''media'', cmpKey = Some ''0f8fad5b'',
                     cmpUploadId = Some ''upload-1'',
                     cmpParts = [\<lparr>ETag = Some ''e'', PartNumber = 1\<rparr>]\<rparr>
           (Inr \<lparr>cmpoKey = Some ''0f8fad5b'',
                 cmpoLocation = Some ''https://media.example/object''\<rparr>)],
      panicked = False\<rparr>"
  by (simp add: FileHandler_def upload_loop.simps loop_pass_def CopyN_def Let_def
        exampleEnv_def exampleClient_def exampleRequest_def
        NewResponseWriter_def Header_Set_def WriteHeader_def Write_def HasPrefix_def
        maxContentSize_def minUploadPartSize_def filenameExtension_def)

lemma example_created:
  "\<exists>out. CreateMultipartUpload (client exampleEnv) h i = Inr out \<and> mpuKey out = cmuKey i"
  by (simp add: exampleEnv_def exampleClient_def)

lemma example_completed:
  assumes "cmpKey i = Some key"
  shows "\<exists>out location. CompleteMultipartUpload (client exampleEnv) h i = Inr out \<and>
           cmpoKey out = Some key \<and> cmpoLocation out = Some location"
  using assms by (simp add: exampleEnv_def exampleClient_def)

section \<open>The claims\<close>

text \<open>
  Claim C6. A POST request whose content type begins neither with \<open>image/\<close> nor with
  \<open>video/\<close> is answered with 415 Unsupported Media Type, and the handler makes no
  backend call: no create, no upload-part, no complete.
\<close>

theorem unsupported_media_type:
  assumes "Method r = MethodPost"
    and "\<not> HasPrefix (ContentType r) ''image/''"
    and "\<not> HasPrefix (ContentType r) ''video/''"
    and "status w = None"
  shows "status (writer (FileHandler env w r)) = Some StatusUnsupportedMediaType \<and>
         calls (FileHandler env w r) = []"
  using assms by (simp add: FileHandler_def Let_def WriteHeader_def Header_Set_def)

text \<open>The theorem at a \<open>text/plain\<close> request.\<close>

theorem unsupported_media_type_witness:
  "Method (exampleRequest ''POST'' ''text/plain'' 3 [1, 2, 3]) = MethodPost \<and>
   \<not> HasPrefix (ContentType (exampleRequest ''POST'' ''text/plain'' 3 [1, 2, 3])) ''image/'' \<and>
   \<not> HasPrefix (ContentType (exampleRequest ''POST'' ''text/plain'' 3 [1, 2, 3])) ''video/'' \<and>
   status NewResponseWriter = None \<and>
   status (writer (FileHandler exampleEnv NewResponseWriter
     (exampleRequest ''POST'' ''text/plain'' 3 [1, 2, 3]))) = Some 415 \<and>
   calls (FileHandler exampleEnv NewResponseWriter
     (exampleRequest ''POST'' ''text/plain'' 3 [1, 2, 3])) = []"
  using unsupported_media_type [of "exampleRequest ''POST'' ''text/plain'' 3 [1, 2, 3]"
      NewResponseWriter exampleEnv]
  by (simp add: HasPrefix_def NewResponseWriter_def exampleRequest_def)

text \<open>
  Claim C7, as stated, fails: the content type is checked before the declared length, so
  a POST request that declares more than 2500 MiB and has an unsupported content type is
  answered with 415, not 413.
\<close>

theorem too_large_with_bad_type_is_415:
  "Method (exampleRequest ''POST'' ''text/plain'' 2621440001 []) = MethodPost \<and>
   ContentLength (exampleRequest ''POST'' ''text/plain'' 2621440001 []) > maxContentSize \<and>
   status (writer (FileHandler exampleEnv NewResponseWriter
     (exampleRequest ''POST'' ''text/plain'' 2621440001 []))) = Some StatusUnsupportedMediaType \<and>
   status (writer (FileHandler exampleEnv NewResponseWriter
     (exampleRequest ''POST'' ''text/plain'' 2621440001 []))) \<noteq> Some StatusRequestEntityTooLarge"
  by (simp add: FileHandler_def Let_def WriteHeader_def Header_Set_def HasPrefix_def
        NewResponseWriter_def exampleRequest_def maxContentSize_def)

text \<open>
  Claim C7, amended. A POST request whose declared content length is greater than
  2500 MiB makes the handler call the backend not at all; the answer is 413 Request
  Entity Too Large when the content type begins with \<open>image/\<close> or \<open>video/\<close>, and 415
  otherwise.
\<close>

theorem payload_too_large:
  assumes "Method r = MethodPost"
    and "ContentLength r > maxContentSize"
    and "status w = None"
  shows "calls (FileHandler env w r) = [] \<and>
         status (writer (FileHandler env w r)) =
           Some (if HasPrefix (ContentType r) ''image/'' \<or> HasPrefix (ContentType r) ''video/''
                 then StatusRequestEntityTooLarge else StatusUnsupportedMediaType)"
  using assms by (simp add: FileHandler_def Let_def WriteHeader_def Header_Set_def)

text \<open>The theorem at a \<open>video/webm\<close> request that declares 2500 MiB and one byte.\<close>

theorem payload_too_large_witness:
  "Method (exampleRequest ''POST'' ''video/webm'' 2621440001 []) = MethodPost \<and>
   ContentLength (exampleRequest ''POST'' ''video/webm'' 2621440001 []) > maxContentSize \<and>
   status NewResponseWriter = None \<and>
   calls (FileHandler exampleEnv NewResponseWriter
     (exampleRequest ''POST'' ''video/webm'' 2621440001 [])) = [] \<and>
   status (writer (FileHandler exampleEnv NewResponseWriter
     (exampleRequest ''POST'' ''video/webm'' 2621440001 []))) = Some 413"
  using payload_too_large [of "exampleRequest ''POST'' ''video/webm'' 2621440001 []"
      NewResponseWriter exampleEnv]
  by (simp add: HasPrefix_def NewResponseWriter_def exampleRequest_def maxContentSize_def)

text \<open>
  Claim C8. A POST request with a supported content type and an unknown declared length
  (a negative \<open>ContentLength\<close>) is not rejected by the size check: the answer is not 413,
  and the handler goes on to initiate the upload, so that its first backend call is the
  create call, for the key made of the fresh identifier and the extension.
\<close>

theorem unknown_length_passes:
  assumes "Method r = MethodPost"
    and "HasPrefix (ContentType r) ''image/'' \<or> HasPrefix (ContentType r) ''video/''"
    and "ContentLength r < 0"
    and "status w = None"
  shows "status (writer (FileHandler env w r)) \<noteq> Some StatusRequestEntityTooLarge \<and>
         (\<exists>input res rest.
            calls (FileHandler env w r) = EvCreate input res # rest \<and>
            res = CreateMultipartUpload (client env) [] input \<and>
            cmuKey input = Some (newUUID env @ filenameExtension (ContentType r)) \<and>
            cmuContentType input = Some (ContentType r))"
proof -
  have acc: "accepted r"
    using assms(1-3) by (simp add: accepted_def maxContentSize_def)
  from status_accepted [OF acc assms(4), of env]
  have "status (writer (FileHandler env w r)) \<noteq> Some StatusRequestEntityTooLarge"
    by auto
  moreover from acc have "\<exists>res rest.
      calls (FileHandler env w r) = EvCreate (create_input env r) res # rest \<and>
      res = CreateMultipartUpload (client env) [] (create_input env r)"
    by (cases rule: FileHandler_accepted_cases [where env = env and w = w]) simp_all
  ultimately show ?thesis
    by (auto simp: create_input_def)
qed

text \<open>The theorem at an \<open>image/png\<close> request of unknown length.\<close>

theorem unknown_length_passes_witness:
  "Method (exampleRequest ''POST'' ''image/png'' (- 1) [1, 2, 3]) = MethodPost \<and>
   (HasPrefix (ContentType (exampleRequest ''POST'' ''image/png'' (- 1) [1, 2, 3])) ''image/'' \<or>
    HasPrefix (ContentType (exampleRequest ''POST'' ''image/png'' (- 1) [1, 2, 3])) ''video/'') \<and>
   ContentLength (exampleRequest ''POST'' ''image/png'' (- 1) [1, 2, 3]) < 0 \<and>
   status NewResponseWriter = None \<and>
   status (writer (FileHandler exampleEnv NewResponseWriter
       (exampleRequest ''POST'' ''image/png'' (- 1) [1, 2, 3]))) \<noteq> Some 413 \<and>
   (\<exists>input res rest.
      calls (FileHandler exampleEnv NewResponseWriter
        (exampleRequest ''POST'' ''image/png'' (- 1) [1, 2, 3])) = EvCreate input res # rest \<and>
      cmuKey input = Some ''0f8fad5b.png'')"
  using unknown_length_passes [of "exampleRequest ''POST'' ''image/png'' (- 1) [1, 2, 3]"
      NewResponseWriter exampleEnv]
  by (auto simp: exampleRequest_def HasPrefix_def status_NewResponseWriter exampleEnv_def
        filenameExtension_def)

text \<open>
  Claim C9. A request whose method is not POST is answered with 405 Method Not Allowed,
  and the handler makes no backend call.
\<close>

theorem method_not_allowed:
  assumes "Method r \<noteq> MethodPost" and "status w = None"
  shows "status (writer (FileHandler env w r)) = Some StatusMethodNotAllowed \<and>
         calls (FileHandler env w r) = []"
  using assms by (simp add: FileHandler_def WriteHeader_def)

text \<open>The theorem at a GET request.\<close>

theorem method_not_allowed_witness:
  "Method (exampleRequest ''GET'' ''image/png'' 3 [1, 2, 3]) \<noteq> MethodPost \<and>
   status NewResponseWriter = None \<and>
   status (writer (FileHandler exampleEnv NewResponseWriter
     (exampleRequest ''GET'' ''image/png'' 3 [1, 2, 3]))) = Some 405 \<and>
   calls (FileHandler exampleEnv NewResponseWriter
     (exampleRequest ''GET'' ''image/png'' 3 [1, 2, 3])) = []"
  using method_not_allowed [of "exampleRequest ''GET'' ''image/png'' 3 [1, 2, 3]"
      NewResponseWriter exampleEnv]
  by (simp add: NewResponseWriter_def exampleRequest_def)

text \<open>
  Claim C4. If an upload-part call fails, then it is the last backend call of the
  handler (no further upload-part call follows and every earlier one succeeded), no
  complete-multipart call is made, and the answer is 500.
\<close>

theorem upload_failure_aborts:
  assumes "EvUpload input (Inl e) \<in> set (calls (FileHandler env w r))"
    and "status w = None"
  shows "status (writer (FileHandler env w r)) = Some StatusInternalServerError \<and>
         completions (calls (FileHandler env w r)) = [] \<and>
         (\<exists>es. calls (FileHandler env w r) = es @ [EvUpload input (Inl e)] \<and>
               (\<forall>u \<in> set (uploads es). \<not> isl (snd u)))"
proof (cases "accepted r")
  case False
  with assms(1) show ?thesis by (simp add: FileHandler_not_accepted)
next
  case True
  then show ?thesis
  proof (cases rule: FileHandler_accepted_cases [where env = env and w = w])
    case (create_failed e')
    with assms(1) show ?thesis by simp
  next
    case (loop_failed mpu us)
    let ?create = "EvCreate (create_input env r) (Inr mpu)"
    from assms(1) loop_failed(3) have mem: "(input, Inl e) \<in> set us"
      by (simp add: EvUpload_in_upload_events)
    then have ne: "us \<noteq> []" by auto
    have "(input, Inl e) \<notin> set (butlast us)"
      using loop_failed(4) by force
    moreover from ne have "set us = set (butlast us @ [last us])"
      by simp
    ultimately have last: "last us = (input, Inl e)"
      using mem by auto
    with ne have us: "us = butlast us @ [(input, Inl e)]"
      by (metis append_butlast_last_id)
    from us have "upload_events us = upload_events (butlast us @ [(input, Inl e)])"
      by (rule arg_cong)
    then have "calls (FileHandler env w r) =
            (?create # upload_events (butlast us)) @ [EvUpload input (Inl e)]"
      by (simp add: loop_failed(3) upload_events_append upload_events_Cons upload_events_Nil)
    moreover have "\<forall>u \<in> set (uploads (?create # upload_events (butlast us))). \<not> isl (snd u)"
      using loop_failed(4) by (simp add: uploads_upload_events)
    moreover have "completions (calls (FileHandler env w r)) = []"
      by (simp add: loop_failed(3) completions_upload_events)
    moreover have "status (writer (FileHandler env w r)) = Some StatusInternalServerError"
      using assms(2) by (simp add: loop_failed(3) status_WriteHeader status_prepared)
    ultimately show ?thesis by blast
  next
    case (completed mpu us res)
    from assms(1) completed(4) have "(input, Inl e) \<in> set us"
      by (simp add: EvUpload_in_upload_events)
    with completed(6) show ?thesis by force
  qed
qed

text \<open>The theorem at a three-byte upload to a backend that refuses the part.\<close>

theorem upload_failure_aborts_witness:
  "EvUpload \<lparr>upBucket = Some ''media'', upKey = Some ''0f8fad5b.png'', upPartNumber = 1,
             upUploadId = Some ''upload-1'', upBody = [1, 2, 3], upContentLength = 3\<rparr>
     (Inl ''InternalError'')
     \<in> set (calls (FileHandler refusingEnv NewResponseWriter
                     (exampleRequest ''POST'' ''image/png'' 3 [1, 2, 3]))) \<and>
   status NewResponseWriter = None \<and>
   status (writer (FileHandler refusingEnv NewResponseWriter
                     (exampleRequest ''POST'' ''image/png'' 3 [1, 2, 3]))) = Some 500 \<and>
   completions (calls (FileHandler refusingEnv NewResponseWriter
                     (exampleRequest ''POST'' ''image/png'' 3 [1, 2, 3]))) = []"
  using upload_failure_aborts [of
      "\<lparr>upBucket = Some ''media'', upKey = Some ''0f8fad5b.png'', upPartNumber = 1,
        upUploadId = Some ''upload-1'', upBody = [1, 2, 3], upContentLength = 3\<rparr>"
      "''InternalError''" refusingEnv NewResponseWriter
      "exampleRequest ''POST'' ''image/png'' 3 [1, 2, 3]"]
  by (simp add: refused_run status_NewResponseWriter)

text \<open>
  Claim C5. Whenever the handler makes the complete-multipart call, the part records it
  sends are, in order, one for each upload-part call made: record \<open>j\<close> (counting from 0)
  has part number \<open>j + 1\<close>, which is the part number the \<open>j\<close>-th upload-part call was
  made with, and carries the ETag that the backend returned for that call, which
  succeeded. The part numbers are \<open>int32\<close> values that start at 1 and grow by 1; with
  fewer than \<open>2^31\<close> parts, read as signed integers they are 1, 2, 3 and so on. The
  complete call is the last backend call and the only complete call.
\<close>

theorem completed_parts_match_uploads:
  assumes "EvComplete input res \<in> set (calls (FileHandler env w r))"
  shows "length (cmpParts input) = length (uploads (calls (FileHandler env w r))) \<and>
         (\<forall>j < length (cmpParts input). \<exists>i out.
            uploads (calls (FileHandler env w r)) ! j = (i, Inr out) \<and>
            upPartNumber i = of_nat (j + 1) \<and>
            cmpParts input ! j = \<lparr>ETag = upETag out, PartNumber = of_nat (j + 1)\<rparr>) \<and>
         (length (cmpParts input) < 2 ^ 31 \<longrightarrow>
            map (\<lambda>p. sint (PartNumber p)) (cmpParts input) =
              map int [1..<Suc (length (cmpParts input))]) \<and>
         (\<exists>es. calls (FileHandler env w r) = es @ [EvComplete input res] \<and>
               completions es = [])"
proof (cases "accepted r")
  case False
  with assms show ?thesis by (simp add: FileHandler_not_accepted)
next
  case True
  then show ?thesis
  proof (cases rule: FileHandler_accepted_cases [where env = env and w = w])
    case (create_failed e)
    with assms show ?thesis by simp
  next
    case (loop_failed mpu us)
    with assms show ?thesis by (simp add: EvComplete_notin_upload_events)
  next
    case (completed mpu us res')
    let ?create = "EvCreate (create_input env r) (Inr mpu)"
    from assms completed(4) have input: "input = complete_input mpu (map part_record us)"
      and res: "res = res'"
      by (simp_all add: EvComplete_notin_upload_events)
    have parts: "cmpParts input = map part_record us"
      by (simp add: input complete_input_def)
    have ups: "uploads (calls (FileHandler env w r)) = us"
      by (simp add: completed(4) uploads_append uploads_upload_events)
    have "\<exists>i out. us ! j = (i, Inr out) \<and> upPartNumber i = of_nat (j + 1) \<and>
            map part_record us ! j = \<lparr>ETag = upETag out, PartNumber = of_nat (j + 1)\<rparr>"
      if j: "j < length us" for j
    proof -
      obtain i x where u: "us ! j = (i, x)" by (cases "us ! j")
      from j have "us ! j \<in> set us" by simp
      with completed(6) u have "\<not> isl x" by force
      then obtain out where x: "x = Inr out" by (cases x) simp_all
      have "map (\<lambda>u. upPartNumber (fst u)) us ! j = map (\<lambda>j. 1 + of_nat j) [0..<length us] ! j"
        by (simp only: completed(7))
      with j u have "upPartNumber i = of_nat (j + 1)" by simp
      with j u x show ?thesis by (simp add: part_record_def)
    qed
    moreover have "length us < 2 ^ 31 \<longrightarrow>
        map (\<lambda>p. sint (PartNumber p)) (map part_record us) = map int [1..<Suc (length us)]"
      using part_numbers_signed [OF completed(7)] by blast
    moreover have "calls (FileHandler env w r) =
        (?create # upload_events us) @ [EvComplete input res]"
      by (simp add: completed(4) input res)
    moreover have "completions (?create # upload_events us) = []"
      by (simp add: completions_upload_events)
    ultimately show ?thesis
      unfolding parts ups by (simp only: length_map) blast
  qed
qed

text \<open>The theorem at a three-byte upload, which is sent as one part.\<close>

theorem completed_parts_match_uploads_witness:
  "EvComplete \<lparr>cmpBucket = Some ''media'', cmpKey = Some ''0f8fad5b.png'',
               cmpUploadId = Some ''upload-1'',
               cmpParts = [\<lparr>ETag = Some ''e'', PartNumber = 1\<rparr>]\<rparr>
     (Inr \<lparr>cmpoKey = Some ''0f8fad5b.png'', cmpoLocation = Some ''https://media.example/object''\<rparr>)
     \<in> set (calls (FileHandler exampleEnv NewResponseWriter
                     (exampleRequest ''POST'' ''image/png'' 3 [1, 2, 3]))) \<and>
   length [\<lparr>ETag = Some ''e'', PartNumber = 1 :: int32\<rparr>] =
     length (uploads (calls (FileHandler exampleEnv NewResponseWriter
                     (exampleRequest ''POST'' ''image/png'' 3 [1, 2, 3])))) \<and>
   length [\<lparr>ETag = Some ''e'', PartNumber = 1 :: int32\<rparr>] < 2 ^ 31 \<and>
   map (\<lambda>p. sint (PartNumber p)) [\<lparr>ETag = Some ''e'', PartNumber = 1 :: int32\<rparr>] = [1]"
  using completed_parts_match_uploads [of
      "\<lparr>cmpBucket = Some ''media'', cmpKey = Some ''0f8fad5b.png'',
        cmpUploadId = Some ''upload-1'',
        cmpParts = [\<lparr>ETag = Some ''e'', PartNumber = 1\<rparr>]\<rparr>"
      "Inr \<lparr>cmpoKey = Some ''0f8fad5b.png'', cmpoLocation = Some ''https://media.example/object''\<rparr>"
      exampleEnv NewResponseWriter "exampleRequest ''POST'' ''image/png'' 3 [1, 2, 3]"]
  by (simp add: example_run)

text \<open>
  Claim C10. The extension mapping gives the empty string for \<open>video/mp4\<close>; only
  \<open>video/mp4\<close> followed by a space gives \<open>.mp4\<close>. The seven other listed content types
  give their extensions. So an accepted upload declared as \<open>video/mp4\<close> is created under
  a key that is the fresh identifier alone, with no suffix.
\<close>

theorem mp4_gets_no_extension:
  assumes "Method r = MethodPost"
    and "ContentType r = ''video/mp4''"
    and "ContentLength r \<le> maxContentSize"
  shows "filenameExtension ''video/mp4'' = [] \<and>
         filenameExtension ''video/mp4 '' = ''.mp4'' \<and>
         (\<forall>contentType. filenameExtension contentType = ''.mp4'' \<longrightarrow> contentType = ''video/mp4 '') \<and>
         filenameExtension ''image/gif'' = ''.gif'' \<and>
         filenameExtension ''image/jpeg'' = ''.jpeg'' \<and>
         filenameExtension ''image/png'' = ''.png'' \<and>
         filenameExtension ''image/tiff'' = ''.tiff'' \<and>
         filenameExtension ''video/quicktime'' = ''.mov'' \<and>
         filenameExtension ''video/mpeg'' = ''.mpeg'' \<and>
         filenameExtension ''video/webm'' = ''.webm'' \<and>
         (\<exists>input res rest.
            calls (FileHandler env w r) = EvCreate input res # rest \<and>
            cmuKey input = Some (newUUID env))"
proof -
  have "accepted r"
    using assms by (simp add: accepted_def HasPrefix_def)
  from first_call_accepted [OF this, of env w] assms(2)
  have "\<exists>input res rest.
          calls (FileHandler env w r) = EvCreate input res # rest \<and>
          cmuKey input = Some (newUUID env)"
    by (auto simp: create_input_def filenameExtension_def)
  moreover have
    "\<forall>contentType. filenameExtension contentType = ''.mp4'' \<longrightarrow> contentType = ''video/mp4 ''"
    by (simp add: filenameExtension_def)
  ultimately show ?thesis
    by (simp add: filenameExtension_def)
qed

text \<open>The theorem at a three-byte \<open>video/mp4\<close> upload.\<close>

theorem mp4_gets_no_extension_witness:
  "Method (exampleRequest ''POST'' ''video/mp4'' 3 [1, 2, 3]) = MethodPost \<and>
   ContentType (exampleRequest ''POST'' ''video/mp4'' 3 [1, 2, 3]) = ''video/mp4'' \<and>
   ContentLength (exampleRequest ''POST'' ''video/mp4'' 3 [1, 2, 3]) \<le> maxContentSize \<and>
   filenameExtension ''video/mp4 '' = ''.mp4'' \<and>
   (\<exists>input res rest.
      calls (FileHandler exampleEnv NewResponseWriter
               (exampleRequest ''POST'' ''video/mp4'' 3 [1, 2, 3])) = EvCreate input res # rest \<and>
      cmuKey input = Some ''0f8fad5b'')"
  using mp4_gets_no_extension [of "exampleRequest ''POST'' ''video/mp4'' 3 [1, 2, 3]"
      exampleEnv NewResponseWriter]
  by (simp add: exampleRequest_def maxContentSize_def exampleEnv_def)

text \<open>
  Claim C1, as stated, fails: a body whose length is a positive multiple of the part size
  is sent in one part more than \<open>ceil(n / chunkSize)\<close>. For a body of exactly
  \<open>minUploadPartSize\<close> = 5242880 bytes and content type \<open>image/png\<close>, with a backend that
  accepts every call, the quotient rounded up is 1, and the handler makes two upload-part
  calls, of 5242880 bytes and of 0 bytes.
\<close>

theorem exact_multiple_has_empty_last_part:
  "Method (exampleRequest ''POST'' ''image/png'' 5242880 (replicate minUploadPartSize 0)) = MethodPost \<and>
   HasPrefix (ContentType (exampleRequest ''POST'' ''image/png'' 5242880
      (replicate minUploadPartSize 0))) ''image/'' \<and>
   length (remaining (Body (exampleRequest ''POST'' ''image/png'' 5242880
      (replicate minUploadPartSize 0)))) = 5242880 \<and>
   (5242880 + minUploadPartSize - 1) div minUploadPartSize = 1 \<and>
   length (uploads (calls (FileHandler exampleEnv NewResponseWriter
      (exampleRequest ''POST'' ''image/png'' 5242880 (replicate minUploadPartSize 0))))) = 2 \<and>
   map (\<lambda>u. length (upBody (fst u))) (uploads (calls (FileHandler exampleEnv NewResponseWriter
      (exampleRequest ''POST'' ''image/png'' 5242880 (replicate minUploadPartSize 0))))) =
     [5242880, 0]"
proof -
  let ?r = "exampleRequest ''POST'' ''image/png'' 5242880 (replicate minUploadPartSize 0)"
  have acc: "accepted ?r"
    by (simp add: accepted_def exampleRequest_def HasPrefix_def maxContentSize_def)
  have rd: "failure (Body ?r) \<Longrightarrow> minUploadPartSize dvd length (remaining (Body ?r))"
    by (simp add: exampleRequest_def)
  obtain mpu us res where
    cs: "calls (FileHandler exampleEnv NewResponseWriter ?r) =
           EvCreate (create_input exampleEnv ?r) (Inr mpu) # upload_events us @
           [EvComplete (complete_input mpu (map part_record us)) res]"
    and bodies: "map (\<lambda>u. upBody (fst u)) us = chunks (remaining (Body ?r))"
    by (rule FileHandler_streams [OF acc rd example_accepts(1) example_accepts(2),
          where w = NewResponseWriter]) blast
  from bodies have b: "map (\<lambda>u. upBody (fst u)) us =
      [replicate minUploadPartSize 0, []]"
    by (simp add: exampleRequest_def chunks_one_full)
  have "map (\<lambda>u. length (upBody (fst u))) us = map length (map (\<lambda>u. upBody (fst u)) us)"
    by simp
  also have "\<dots> = [5242880, 0]"
    by (simp only: b) (simp add: minUploadPartSize_def)
  finally have lens: "map (\<lambda>u. length (upBody (fst u))) us = [5242880, 0]" .
  then have "length (map (\<lambda>u. length (upBody (fst u))) us) = 2" by simp
  then have "length us = 2" by simp
  with lens show ?thesis
    unfolding accepted_calls [OF cs]
    by (simp add: exampleRequest_def HasPrefix_def minUploadPartSize_def)
qed

text \<open>
  Claim C1, amended. For a POST request with a content type beginning with \<open>image/\<close> or
  \<open>video/\<close>, a declared length of at most \<open>maxContentSize\<close>, a body of \<open>n\<close> bytes that
  ends cleanly, and a backend whose create and upload-part calls succeed, the handler
  makes \<open>n div chunkSize + 1\<close> upload-part calls: the body cut into full parts, followed
  by a last part of \<open>n mod chunkSize\<close> bytes. That is \<open>ceil(n / chunkSize)\<close> calls when \<open>n\<close>
  is not a multiple of the part size, and one zero-length call when \<open>n = 0\<close>. The one
  complete-multipart call receives exactly that many part records, with the part numbers
  1, 2, 3 and so on, in this order (\<open>int32\<close> values; read as signed integers they are
  these numbers as long as there are fewer than \<open>2^31\<close> parts).
\<close>

theorem part_count:
  assumes "Method r = MethodPost"
    and "HasPrefix (ContentType r) ''image/'' \<or> HasPrefix (ContentType r) ''video/''"
    and "ContentLength r \<le> maxContentSize"
    and "\<not> failure (Body r)"
    and "\<And>h i. \<not> isl (CreateMultipartUpload (client env) h i)"
    and "\<And>h i. \<not> isl (UploadPart (client env) h i)"
  shows "length (uploads (calls (FileHandler env w r))) =
           length (remaining (Body r)) div minUploadPartSize + 1 \<and>
         map (\<lambda>u. upBody (fst u)) (uploads (calls (FileHandler env w r))) =
           chunks (remaining (Body r)) \<and>
         length (upBody (fst (last (uploads (calls (FileHandler env w r)))))) =
           length (remaining (Body r)) mod minUploadPartSize \<and>
         (\<not> minUploadPartSize dvd length (remaining (Body r)) \<longrightarrow>
            length (uploads (calls (FileHandler env w r))) =
              (length (remaining (Body r)) + minUploadPartSize - 1) div minUploadPartSize) \<and>
         (\<exists>input res.
            completions (calls (FileHandler env w r)) = [(input, res)] \<and>
            length (cmpParts input) = length (remaining (Body r)) div minUploadPartSize + 1 \<and>
            map PartNumber (cmpParts input) =
              map of_nat [1..<length (remaining (Body r)) div minUploadPartSize + 2] \<and>
            (length (remaining (Body r)) div minUploadPartSize + 1 < 2 ^ 31 \<longrightarrow>
               map (\<lambda>p. sint (PartNumber p)) (cmpParts input) =
                 map int [1..<length (remaining (Body r)) div minUploadPartSize + 2]))"
proof -
  let ?n = "length (remaining (Body r))"
  have acc: "accepted r"
    using assms(1-3) by (simp add: accepted_def)
  from assms(4) have rd: "failure (Body r) \<Longrightarrow> minUploadPartSize dvd ?n"
    by simp
  obtain mpu us res where
    cs: "calls (FileHandler env w r) =
           EvCreate (create_input env r) (Inr mpu) # upload_events us @
           [EvComplete (complete_input mpu (map part_record us)) res]"
    and bodies: "map (\<lambda>u. upBody (fst u)) us = chunks (remaining (Body r))"
    and numbers: "map (\<lambda>u. upPartNumber (fst u)) us = map (\<lambda>j. 1 + of_nat j) [0..<length us]"
    by (rule FileHandler_streams [OF acc rd assms(5) assms(6), where w = w]) blast
  note obs = accepted_calls [OF cs]
  have len: "length us = ?n div minUploadPartSize + 1"
  proof -
    have "length us = length (map (\<lambda>u. upBody (fst u)) us)" by simp
    also have "\<dots> = ?n div minUploadPartSize + 1"
      by (simp only: bodies length_chunks)
    finally show ?thesis .
  qed
  then have ne: "us \<noteq> []" by auto
  have "upBody (fst (last us)) = last (map (\<lambda>u. upBody (fst u)) us)"
    using ne by (simp add: last_map)
  then have lastlen: "length (upBody (fst (last us))) = ?n mod minUploadPartSize"
    by (simp only: bodies length_last_chunks)
  have ceil: "\<not> minUploadPartSize dvd ?n \<longrightarrow>
      length us = (?n + minUploadPartSize - 1) div minUploadPartSize"
    using len ceiling_div [OF _ minUploadPartSize_pos, of ?n] by simp
  have "map PartNumber (map part_record us) = map (\<lambda>u. upPartNumber (fst u)) us"
    by (simp add: part_record_def)
  also have "\<dots> = map of_nat [1..<Suc (length us)]"
    by (simp only: numbers part_numbers_from_one)
  finally have "map PartNumber (cmpParts (complete_input mpu (map part_record us))) =
      map of_nat [1..<?n div minUploadPartSize + 2]"
    by (simp add: complete_input_def len)
  moreover have "length (cmpParts (complete_input mpu (map part_record us))) =
      ?n div minUploadPartSize + 1"
    by (simp add: complete_input_def len)
  moreover have "?n div minUploadPartSize + 1 < 2 ^ 31 \<longrightarrow>
      map (\<lambda>p. sint (PartNumber p)) (cmpParts (complete_input mpu (map part_record us))) =
        map int [1..<?n div minUploadPartSize + 2]"
    using part_numbers_signed [OF numbers] by (simp add: complete_input_def len)
  ultimately show ?thesis
    unfolding obs using len bodies lastlen ceil by blast
qed

text \<open>The theorem at a body of 12 MiB, sent in three parts.\<close>

theorem part_count_witness:
  "Method (exampleRequest ''POST'' ''image/png'' 12582912 (replicate 12582912 7)) = MethodPost \<and>
   (HasPrefix (ContentType (exampleRequest ''POST'' ''image/png'' 12582912 (replicate 12582912 7)))
      ''image/'' \<or>
    HasPrefix (ContentType (exampleRequest ''POST'' ''image/png'' 12582912 (replicate 12582912 7)))
      ''video/'') \<and>
   ContentLength (exampleRequest ''POST'' ''image/png'' 12582912 (replicate 12582912 7))
     \<le> maxContentSize \<and>
   \<not> failure (Body (exampleRequest ''POST'' ''image/png'' 12582912 (replicate 12582912 7))) \<and>
   (\<forall>h i. \<not> isl (CreateMultipartUpload (client exampleEnv) h i)) \<and>
   (\<forall>h i. \<not> isl (UploadPart (client exampleEnv) h i)) \<and>
   \<not> minUploadPartSize dvd
     length (remaining (Body (exampleRequest ''POST'' ''image/png'' 12582912 (replicate 12582912 7)))) \<and>
   length (uploads (calls (FileHandler exampleEnv NewResponseWriter
     (exampleRequest ''POST'' ''image/png'' 12582912 (replicate 12582912 7))))) = 3"
  using part_count [of "exampleRequest ''POST'' ''image/png'' 12582912 (replicate 12582912 7)"
      exampleEnv NewResponseWriter]
  by (simp add: exampleRequest_def HasPrefix_def maxContentSize_def minUploadPartSize_def
        example_accepts)

text \<open>
  Claim C2. A POST request with content type \<open>image/png\<close> and a body of 12 MiB that ends
  cleanly, served by a backend whose calls succeed and that answers create and complete
  with the key it was given, makes the handler call the backend five times: create, three
  upload-part calls carrying the first 5 MiB, the next 5 MiB and the last 2 MiB of the
  body, and one complete call with three part records, numbered 1, 2, 3. The upload is
  created under a key ending in \<open>.png\<close>; the answer is 201, and the key in its payload
  ends in \<open>.png\<close>.
\<close>

theorem twelve_mebibytes:
  assumes "Method r = MethodPost"
    and "ContentType r = ''image/png''"
    and "ContentLength r \<le> maxContentSize"
    and "length (remaining (Body r)) = 12 * 1024 * 1024"
    and "\<not> failure (Body r)"
    and "\<And>h i. \<exists>out. CreateMultipartUpload (client env) h i = Inr out \<and> mpuKey out = cmuKey i"
    and "\<And>h i. \<not> isl (UploadPart (client env) h i)"
    and "\<And>h i key. cmpKey i = Some key \<Longrightarrow>
           \<exists>out location. CompleteMultipartUpload (client env) h i = Inr out \<and>
             cmpoKey out = Some key \<and> cmpoLocation out = Some location"
    and "\<not> writeFails env"
    and "status w = None"
  shows "(\<exists>ci cr i1 r1 i2 r2 i3 r3 fi fr.
            calls (FileHandler env w r) =
              [EvCreate ci cr, EvUpload i1 r1, EvUpload i2 r2, EvUpload i3 r3, EvComplete fi fr] \<and>
            upBody i1 = take (5 * 1024 * 1024) (remaining (Body r)) \<and>
            upBody i2 = take (5 * 1024 * 1024) (drop (5 * 1024 * 1024) (remaining (Body r))) \<and>
            upBody i3 = drop (10 * 1024 * 1024) (remaining (Body r)) \<and>
            length (upBody i1) = 5 * 1024 * 1024 \<and>
            length (upBody i2) = 5 * 1024 * 1024 \<and>
            length (upBody i3) = 2 * 1024 * 1024 \<and>
            map PartNumber (cmpParts fi) = [1, 2, 3] \<and>
            cmuKey ci = Some (newUUID env @ ''.png'')) \<and>
         status (writer (FileHandler env w r)) = Some StatusCreated \<and>
         (\<exists>key location.
            payload (writer (FileHandler env w r)) =
              Some \<lparr>Key = key, Links = [\<lparr>URL = location\<rparr>]\<rparr> \<and>
            suffix ''.png'' key)"
proof -
  let ?data = "remaining (Body r)"
  have acc: "accepted r"
    using assms(1-3) by (simp add: accepted_def HasPrefix_def)
  from assms(5) have rd: "failure (Body r) \<Longrightarrow> minUploadPartSize dvd length ?data"
    by simp
  have create: "\<not> isl (CreateMultipartUpload (client env) h i)" for h i
    using assms(6) [of h i] by auto
  obtain mpu us res where
    cs: "calls (FileHandler env w r) =
           EvCreate (create_input env r) (Inr mpu) # upload_events us @
           [EvComplete (complete_input mpu (map part_record us)) res]"
    and res: "res = CompleteMultipartUpload (client env)
               (EvCreate (create_input env r) (Inr mpu) # upload_events us)
               (complete_input mpu (map part_record us))"
    and bodies: "map (\<lambda>u. upBody (fst u)) us = chunks ?data"
    and numbers: "map (\<lambda>u. upPartNumber (fst u)) us = map (\<lambda>j. 1 + of_nat j) [0..<length us]"
    and wr: "writer (FileHandler env w r) =
         (case res of
            Inl e \<Rightarrow> WriteHeader StatusInternalServerError (prepared w)
          | Inr out \<Rightarrow>
              (case (cmpoKey out, cmpoLocation out) of
                 (Some key, Some location) \<Rightarrow>
                   if writeFails env
                   then WriteHeader StatusInternalServerError (WriteHeader StatusCreated (prepared w))
                   else Write \<lparr>Key = key, Links = [\<lparr>URL = location\<rparr>]\<rparr>
                          (WriteHeader StatusCreated (prepared w))
               | _ \<Rightarrow> prepared w))"
    and created: "CreateMultipartUpload (client env) [] (create_input env r) = Inr mpu"
    by (rule FileHandler_streams [OF acc rd create assms(7), where w = w]) blast
  note split = chunks_twelve [OF assms(4)]
  from bodies have b: "map (\<lambda>u. upBody (fst u)) us =
      [take (5 * 1024 * 1024) ?data,
       take (5 * 1024 * 1024) (drop (5 * 1024 * 1024) ?data),
       drop (10 * 1024 * 1024) ?data]"
    by (simp only: split)
  then have "length (map (\<lambda>u. upBody (fst u)) us) = 3" by simp
  then have "length us = 3" by simp
  then obtain u1 u2 u3 where us: "us = [u1, u2, u3]"
    using length_three by blast
  obtain i1 r1 where u1: "u1 = (i1, r1)" by (cases u1)
  obtain i2 r2 where u2: "u2 = (i2, r2)" by (cases u2)
  obtain i3 r3 where u3: "u3 = (i3, r3)" by (cases u3)
  from b have b1: "upBody i1 = take (5 * 1024 * 1024) ?data"
    and b2: "upBody i2 = take (5 * 1024 * 1024) (drop (5 * 1024 * 1024) ?data)"
    and b3: "upBody i3 = drop (10 * 1024 * 1024) ?data"
    by (simp_all add: us u1 u2 u3)
  have lens: "length (upBody i1) = 5 * 1024 * 1024" "length (upBody i2) = 5 * 1024 * 1024"
    "length (upBody i3) = 2 * 1024 * 1024"
    using assms(4) by (simp_all add: b1 b2 b3)
  have "map PartNumber (map part_record us) = map (\<lambda>u. upPartNumber (fst u)) us"
    by (simp add: part_record_def)
  also have "\<dots> = [1, 2, 3]"
    by (simp only: numbers) (simp add: us upt_rec)
  finally have pns: "map PartNumber (cmpParts (complete_input mpu (map part_record us))) = [1, 2, 3]"
    by (simp add: complete_input_def)
  have calls: "\<exists>ci cr i1 r1 i2 r2 i3 r3 fi fr.
      calls (FileHandler env w r) =
        [EvCreate ci cr, EvUpload i1 r1, EvUpload i2 r2, EvUpload i3 r3, EvComplete fi fr] \<and>
      upBody i1 = take (5 * 1024 * 1024) ?data \<and>
      upBody i2 = take (5 * 1024 * 1024) (drop (5 * 1024 * 1024) ?data) \<and>
      upBody i3 = drop (10 * 1024 * 1024) ?data \<and>
      length (upBody i1) = 5 * 1024 * 1024 \<and>
      length (upBody i2) = 5 * 1024 * 1024 \<and>
      length (upBody i3) = 2 * 1024 * 1024 \<and>
      map PartNumber (cmpParts fi) = [1, 2, 3] \<and>
      cmuKey ci = Some (newUUID env @ ''.png'')"
  proof -
    have "calls (FileHandler env w r) =
        [EvCreate (create_input env r) (Inr mpu), EvUpload i1 r1, EvUpload i2 r2, EvUpload i3 r3,
         EvComplete (complete_input mpu (map part_record us)) res]"
      by (simp add: cs us u1 u2 u3 upload_events_Cons upload_events_Nil)
    moreover have "cmuKey (create_input env r) = Some (newUUID env @ ''.png'')"
      by (simp add: create_input_def assms(2) filenameExtension_def)
    ultimately show ?thesis
      using b1 b2 b3 lens pns by (intro exI conjI) assumption+
  qed
  from assms(6) [of "[]" "create_input env r"] created
  have "mpuKey mpu = Some (newUUID env @ ''.png'')"
    by (simp add: create_input_def assms(2) filenameExtension_def)
  then have "cmpKey (complete_input mpu (map part_record us)) = Some (newUUID env @ ''.png'')"
    by (simp add: complete_input_def)
  from assms(8) [OF this] res obtain cout location where
    cres: "res = Inr cout" "cmpoKey cout = Some (newUUID env @ ''.png'')"
      "cmpoLocation cout = Some location"
    by metis
  have "status (writer (FileHandler env w r)) = Some StatusCreated"
    using cres status_created [OF assms(10)] by (simp add: wr)
  moreover have "payload (writer (FileHandler env w r)) =
      Some \<lparr>Key = newUUID env @ ''.png'', Links = [\<lparr>URL = location\<rparr>]\<rparr>"
    using cres assms(9) by (simp add: wr payload_Write)
  moreover have "suffix ''.png'' (newUUID env @ ''.png'')"
    by (rule suffixI) simp
  ultimately show ?thesis
    using calls by blast
qed

text \<open>The theorem at a body of 12582912 bytes.\<close>

theorem twelve_mebibytes_witness:
  "Method (exampleRequest ''POST'' ''image/png'' 12582912 (replicate 12582912 7)) = MethodPost \<and>
   ContentType (exampleRequest ''POST'' ''image/png'' 12582912 (replicate 12582912 7)) = ''image/png'' \<and>
   ContentLength (exampleRequest ''POST'' ''image/png'' 12582912 (replicate 12582912 7))
     \<le> maxContentSize \<and>
   length (remaining (Body (exampleRequest ''POST'' ''image/png'' 12582912 (replicate 12582912 7))))
     = 12 * 1024 * 1024 \<and>
   \<not> failure (Body (exampleRequest ''POST'' ''image/png'' 12582912 (replicate 12582912 7))) \<and>
   (\<forall>h i. \<exists>out. CreateMultipartUpload (client exampleEnv) h i = Inr out \<and> mpuKey out = cmuKey i) \<and>
   (\<forall>h i. \<not> isl (UploadPart (client exampleEnv) h i)) \<and>
   (\<forall>h i key. \<exists>out location.
      CompleteMultipartUpload (client exampleEnv) h (i\<lparr>cmpKey := Some key\<rparr>) = Inr out \<and>
      cmpoKey out = Some key \<and> cmpoLocation out = Some location) \<and>
   \<not> writeFails exampleEnv \<and>
   status NewResponseWriter = None \<and>
   status (writer (FileHandler exampleEnv NewResponseWriter
     (exampleRequest ''POST'' ''image/png'' 12582912 (replicate 12582912 7)))) = Some 201 \<and>
   (\<exists>key location.
      payload (writer (FileHandler exampleEnv NewResponseWriter
        (exampleRequest ''POST'' ''image/png'' 12582912 (replicate 12582912 7)))) =
        Some \<lparr>Key = key, Links = [\<lparr>URL = location\<rparr>]\<rparr> \<and>
      suffix ''.png'' key)"
proof -
  let ?r = "exampleRequest ''POST'' ''image/png'' 12582912 (replicate 12582912 7)"
  have hyps: "Method ?r = MethodPost" "ContentType ?r = ''image/png''"
    "ContentLength ?r \<le> maxContentSize" "length (remaining (Body ?r)) = 12 * 1024 * 1024"
    "\<not> failure (Body ?r)"
    by (simp_all add: exampleRequest_def maxContentSize_def)
  have wf: "\<not> writeFails exampleEnv"
    by (simp add: exampleEnv_def)
  have comp: "\<exists>out location.
      CompleteMultipartUpload (client exampleEnv) h (i\<lparr>cmpKey := Some key\<rparr>) = Inr out \<and>
      cmpoKey out = Some key \<and> cmpoLocation out = Some location" for h i key
    by (rule example_completed) simp
  from twelve_mebibytes [OF hyps example_created example_accepts(2) example_completed wf
      status_NewResponseWriter]
  show ?thesis
    using hyps wf example_created example_accepts(2) status_NewResponseWriter comp
    by blast
qed

text \<open>
  Claim C3. For an accepted request whose body is empty, and a backend whose calls
  succeed, the handler makes exactly one upload-part call, with part number 1 and
  zero-length content, and then one complete call with the single record of that part.
  The answer is 201, the handler does not panic, and unless writing the response fails
  the payload is an object reference (a key and one link).
\<close>

theorem empty_body_one_part:
  assumes "Method r = MethodPost"
    and "HasPrefix (ContentType r) ''image/'' \<or> HasPrefix (ContentType r) ''video/''"
    and "ContentLength r \<le> maxContentSize"
    and "remaining (Body r) = []"
    and "\<And>h i. \<not> isl (CreateMultipartUpload (client env) h i)"
    and "\<And>h i. \<not> isl (UploadPart (client env) h i)"
    and "\<And>h i. \<exists>out key location.
           CompleteMultipartUpload (client env) h i = Inr out \<and>
           cmpoKey out = Some key \<and> cmpoLocation out = Some location"
    and "status w = None"
  shows "(\<exists>ci cr ui ur fi fr.
            calls (FileHandler env w r) = [EvCreate ci cr, EvUpload ui ur, EvComplete fi fr] \<and>
            upBody ui = [] \<and> upContentLength ui = 0 \<and> upPartNumber ui = 1 \<and>
            (\<exists>out. ur = Inr out \<and> cmpParts fi = [\<lparr>ETag = upETag out, PartNumber = 1\<rparr>])) \<and>
         status (writer (FileHandler env w r)) = Some StatusCreated \<and>
         \<not> panicked (FileHandler env w r) \<and>
         (\<not> writeFails env \<longrightarrow>
            (\<exists>key location. payload (writer (FileHandler env w r)) =
               Some \<lparr>Key = key, Links = [\<lparr>URL = location\<rparr>]\<rparr>))"
proof -
  have acc: "accepted r"
    using assms(1-3) by (simp add: accepted_def)
  from assms(4) have rd: "failure (Body r) \<Longrightarrow> minUploadPartSize dvd length (remaining (Body r))"
    by simp
  obtain mpu us res where
    cs: "calls (FileHandler env w r) =
           EvCreate (create_input env r) (Inr mpu) # upload_events us @
           [EvComplete (complete_input mpu (map part_record us)) res]"
    and res: "res = CompleteMultipartUpload (client env)
               (EvCreate (create_input env r) (Inr mpu) # upload_events us)
               (complete_input mpu (map part_record us))"
    and bodies: "map (\<lambda>u. upBody (fst u)) us = chunks (remaining (Body r))"
    and ok: "\<forall>u \<in> set us. \<not> isl (snd u)"
    and numbers: "map (\<lambda>u. upPartNumber (fst u)) us = map (\<lambda>j. 1 + of_nat j) [0..<length us]"
    and wr: "writer (FileHandler env w r) =
         (case res of
            Inl e \<Rightarrow> WriteHeader StatusInternalServerError (prepared w)
          | Inr out \<Rightarrow>
              (case (cmpoKey out, cmpoLocation out) of
                 (Some key, Some location) \<Rightarrow>
                   if writeFails env
                   then WriteHeader StatusInternalServerError (WriteHeader StatusCreated (prepared w))
                   else Write \<lparr>Key = key, Links = [\<lparr>URL = location\<rparr>]\<rparr>
                          (WriteHeader StatusCreated (prepared w))
               | _ \<Rightarrow> prepared w))"
    and inputs: "\<forall>u \<in> set us. fst u = part_input mpu (upPartNumber (fst u)) (upBody (fst u))"
    and pan: "panicked (FileHandler env w r) \<longleftrightarrow>
         (case res of Inl e \<Rightarrow> False
          | Inr out \<Rightarrow> cmpoKey out = None \<or> cmpoLocation out = None)"
    by (rule FileHandler_streams [OF acc rd assms(5) assms(6), where w = w]) blast
  from bodies assms(4) have b: "map (\<lambda>u. upBody (fst u)) us = [[]]"
    by (simp add: chunks_empty)
  then have "length (map (\<lambda>u. upBody (fst u)) us) = 1" by simp
  then have "length us = 1" by simp
  then obtain u where us: "us = [u]"
    using length_one by blast
  obtain ui ur where u: "u = (ui, ur)" by (cases u)
  from ok us u obtain out where ur: "ur = Inr out"
    by (cases ur) simp_all
  from b us u have body: "upBody ui = []" by simp
  from numbers us u have number: "upPartNumber ui = 1" by simp
  from inputs us u have "ui = part_input mpu (upPartNumber ui) (upBody ui)" by simp
  then have "upContentLength ui = int (length (upBody ui))"
    by (metis UploadPartInput.select_convs(6) part_input_def)
  with body have len: "upContentLength ui = 0" by simp
  have parts: "cmpParts (complete_input mpu (map part_record us)) =
      [\<lparr>ETag = upETag out, PartNumber = 1\<rparr>]"
    by (simp add: complete_input_def part_record_def us u ur number)
  from assms(7) res obtain cout key location where
    cres: "res = Inr cout" "cmpoKey cout = Some key" "cmpoLocation cout = Some location"
    by blast
  have calls: "\<exists>ci cr ui ur fi fr.
      calls (FileHandler env w r) = [EvCreate ci cr, EvUpload ui ur, EvComplete fi fr] \<and>
      upBody ui = [] \<and> upContentLength ui = 0 \<and> upPartNumber ui = 1 \<and>
      (\<exists>out. ur = Inr out \<and> cmpParts fi = [\<lparr>ETag = upETag out, PartNumber = 1\<rparr>])"
    using cs body len number ur parts
    by (simp add: us u upload_events_Cons upload_events_Nil)
  moreover have "status (writer (FileHandler env w r)) = Some StatusCreated"
    using cres status_created [OF assms(8)] by (simp add: wr)
  moreover have "\<not> panicked (FileHandler env w r)"
    using cres by (simp add: pan)
  moreover have "\<not> writeFails env \<longrightarrow>
      (\<exists>key location. payload (writer (FileHandler env w r)) =
         Some \<lparr>Key = key, Links = [\<lparr>URL = location\<rparr>]\<rparr>)"
    using cres by (simp add: wr payload_Write)
  ultimately show ?thesis by blast
qed

text \<open>The theorem at an empty \<open>video/mp4\<close> upload.\<close>

theorem empty_body_one_part_witness:
  "Method (exampleRequest ''POST'' ''video/mp4'' 0 []) = MethodPost \<and>
   (HasPrefix (ContentType (exampleRequest ''POST'' ''video/mp4'' 0 [])) ''image/'' \<or>
    HasPrefix (ContentType (exampleRequest ''POST'' ''video/mp4'' 0 [])) ''video/'') \<and>
   ContentLength (exampleRequest ''POST'' ''video/mp4'' 0 []) \<le> maxContentSize \<and>
   remaining (Body (exampleRequest ''POST'' ''video/mp4'' 0 [])) = [] \<and>
   (\<forall>h i. \<not> isl (CreateMultipartUpload (client exampleEnv) h i)) \<and>
   (\<forall>h i. \<not> isl (UploadPart (client exampleEnv) h i)) \<and>
   (\<forall>h i. \<exists>out key location.
      CompleteMultipartUpload (client exampleEnv) h i = Inr out \<and>
      cmpoKey out = Some key \<and> cmpoLocation out = Some location) \<and>
   status NewResponseWriter = None \<and>
   \<not> writeFails exampleEnv \<and>
   status (writer (FileHandler exampleEnv NewResponseWriter
     (exampleRequest ''POST'' ''video/mp4'' 0 []))) = Some 201 \<and>
   \<not> panicked (FileHandler exampleEnv NewResponseWriter
     (exampleRequest ''POST'' ''video/mp4'' 0 [])) \<and>
   (\<exists>key location. payload (writer (FileHandler exampleEnv NewResponseWriter
     (exampleRequest ''POST'' ''video/mp4'' 0 []))) =
       Some \<lparr>Key = key, Links = [\<lparr>URL = location\<rparr>]\<rparr>)"
proof -
  have "Method (exampleRequest ''POST'' ''video/mp4'' 0 []) = MethodPost"
    and "HasPrefix (ContentType (exampleRequest ''POST'' ''video/mp4'' 0 [])) ''image/'' \<or>
         HasPrefix (ContentType (exampleRequest ''POST'' ''video/mp4'' 0 [])) ''video/''"
    and "ContentLength (exampleRequest ''POST'' ''video/mp4'' 0 []) \<le> maxContentSize"
    and "remaining (Body (exampleRequest ''POST'' ''video/mp4'' 0 [])) = []"
    and "\<not> writeFails exampleEnv"
    by (simp_all add: exampleRequest_def HasPrefix_def maxContentSize_def exampleEnv_def)
  with empty_body_one_part [OF this(1-4) example_accepts(1) example_accepts(2)
      example_completes status_NewResponseWriter]
  show ?thesis
    using example_accepts(1) example_accepts(2) example_completes status_NewResponseWriter
    by blast
qed

end
